theory Spec2Isabelle
  imports Main "HOL-Library.Word"
begin

unbundle bit_operations_syntax

section \<open>The platform and the C library\<close>

text \<open>
  \<^verbatim>\<open>proc_demo.c\<close> is one translation unit that is compiled either with \<^verbatim>\<open>_WIN32\<close>
  defined (CreateProcess) or without it (fork and exec). The preprocessor choice is a
  parameter of the model.
\<close>

datatype platform = Win32 | Unix

subsection \<open>Characters, \<^verbatim>\<open>atoi\<close> and \<^verbatim>\<open>%d\<close>\<close>

text \<open>
  The functions of this subsection belong to the C library, not to the repository. They are
  written out after ISO C (7.4.1, 7.22.1): \<^verbatim>\<open>atoi\<close> skips white space, reads one optional
  sign and then the longest run of decimal digits, and ignores whatever follows; with no
  digit at all the value is 0. ISO C leaves the result undefined when the value does not
  fit an \<^verbatim>\<open>int\<close>; the model takes what the two libraries do there: glibc returns
  \<^verbatim>\<open>(int) strtol (s, NULL, 10)\<close> (saturated to a 64-bit \<^verbatim>\<open>long\<close>, then cut to 32 bits),
  the Windows UCRT saturates to \<^verbatim>\<open>INT_MIN\<close> and \<^verbatim>\<open>INT_MAX\<close>. An \<^verbatim>\<open>int\<close> is a HOL
  integer that these functions keep within 32 bits.
\<close>

definition isspace_c :: "char \<Rightarrow> bool" where
  "isspace_c c =
     (c = CHR '' '' \<or> c = CHR 0x09 \<or> c = CHR 0x0A \<or> c = CHR 0x0B \<or> c = CHR 0x0C \<or> c = CHR 0x0D)"

definition isdigit_c :: "char \<Rightarrow> bool" where
  "isdigit_c c = (48 \<le> (of_char c :: nat) \<and> (of_char c :: nat) \<le> 57)"

definition digit_of :: "char \<Rightarrow> int" where
  "digit_of c = int (of_char c) - 48"

fun digits_value :: "int \<Rightarrow> string \<Rightarrow> int" where
  "digits_value acc [] = acc"
| "digits_value acc (c # cs) =
     (if isdigit_c c then digits_value (10 * acc + digit_of c) cs else acc)"

definition parse_decimal :: "string \<Rightarrow> int" where
  "parse_decimal s =
     (case dropWhile isspace_c s of
        [] \<Rightarrow> 0
      | c # r \<Rightarrow>
          if c = CHR ''-'' then - digits_value 0 r
          else if c = CHR ''+'' then digits_value 0 r
          else digits_value 0 (c # r))"

definition INT_MIN :: int where
  "INT_MIN = - 2147483648"

definition INT_MAX :: int where
  "INT_MAX = 2147483647"

definition clamp :: "int \<Rightarrow> int \<Rightarrow> int \<Rightarrow> int" where
  "clamp lo hi v = (if v < lo then lo else if hi < v then hi else v)"

definition to_int32 :: "int \<Rightarrow> int" where
  "to_int32 v = (v + 2147483648) mod 4294967296 - 2147483648"

definition atoi :: "platform \<Rightarrow> string \<Rightarrow> int" where
  "atoi p s =
     (case p of
        Unix \<Rightarrow> to_int32 (clamp (- 9223372036854775808) 9223372036854775807 (parse_decimal s))
      | Win32 \<Rightarrow> clamp INT_MIN INT_MAX (parse_decimal s))"

definition digit_char :: "nat \<Rightarrow> char" where
  "digit_char d = char_of (48 + d)"

fun show_nat :: "nat \<Rightarrow> string" where
  "show_nat n = (if n < 10 then [digit_char n] else show_nat (n div 10) @ [digit_char (n mod 10)])"

declare show_nat.simps [simp del]

definition show_int :: "int \<Rightarrow> string" where
  "show_int i = (if i < 0 then CHR ''-'' # show_nat (nat (- i)) else show_nat (nat i))"

text \<open>
  \<^verbatim>\<open>snprintf (buf, size, ...)\<close> stores at most \<^verbatim>\<open>size - 1\<close> characters of the formatted
  text (and the terminating NUL).
\<close>

definition snprintf_c :: "nat \<Rightarrow> string \<Rightarrow> string" where
  "snprintf_c n s = take (n - 1) s"

subsection \<open>The Windows C runtime: from the command line to \<^verbatim>\<open>argv\<close>\<close>





section \<open>The role resolver: \<^verbatim>\<open>parse_args\<close>\<close>

text \<open>
  The argument vector is the list of its strings, \<^verbatim>\<open>argc\<close> being its length. An argument
  is the text before its terminating NUL, so the strings of the model are meant to hold no
  NUL character.

  The two file-scope variables \<^verbatim>\<open>is_child\<close> and \<^verbatim>\<open>child_idx\<close>, both initialised to 0.
\<close>

record globals =
  is_child :: int
  child_idx :: int

definition initial_globals :: globals where
  "initial_globals = \<lparr>is_child = 0, child_idx = 0\<rparr>"

text \<open>
  The body of the loop of \<^verbatim>\<open>parse_args\<close> for one argument: \<^verbatim>\<open>strcmp\<close> against
  \<^verbatim>\<open>--child\<close> first, then \<^verbatim>\<open>strncmp\<close> of the first 5 characters against \<^verbatim>\<open>--id=\<close>
  (an argument shorter than 5 characters differs at its NUL), with \<^verbatim>\<open>atoi (argv[i] + 5)\<close>.
\<close>

definition parse_arg :: "platform \<Rightarrow> string \<Rightarrow> globals \<Rightarrow> globals" where
  "parse_arg p a g =
     (if a = ''--child'' then g\<lparr>is_child := 1\<rparr>
      else if take 5 a = ''--id='' then g\<lparr>child_idx := atoi p (drop 5 a)\<rparr>
      else g)"

fun parse_loop :: "platform \<Rightarrow> string list \<Rightarrow> globals \<Rightarrow> globals" where
  "parse_loop p [] g = g"
| "parse_loop p (a # rest) g = parse_loop p rest (parse_arg p a g)"

text \<open>The loop runs over \<^verbatim>\<open>argv[1]\<close> ... \<^verbatim>\<open>argv[argc - 1]\<close>: the program name is skipped.\<close>

definition parse_args :: "platform \<Rightarrow> string list \<Rightarrow> globals" where
  "parse_args p argv = parse_loop p (drop 1 argv) initial_globals"

text \<open>
  The same function with its one pointer computation made explicit. \<^verbatim>\<open>argv[i] + 5\<close> is
  defined only when it points into the argument or at its terminating NUL, that is when the
  argument has at least 5 characters; \<open>None\<close> is a run that forms a pointer beyond that. The
  elements \<^verbatim>\<open>argv[i]\<close> are read for \<open>1 \<le> i < argc\<close> only, and \<^verbatim>\<open>strcmp\<close>, \<^verbatim>\<open>strncmp\<close> and
  \<^verbatim>\<open>atoi\<close> stop at the terminating NUL.
\<close>

definition ptr_add :: "string \<Rightarrow> nat \<Rightarrow> string option" where
  "ptr_add s n = (if n \<le> length s then Some (drop n s) else None)"

definition parse_arg_checked :: "platform \<Rightarrow> string \<Rightarrow> globals \<Rightarrow> globals option" where
  "parse_arg_checked p a g =
     (if a = ''--child'' then Some (g\<lparr>is_child := 1\<rparr>)
      else if take 5 a = ''--id='' then
        (case ptr_add a 5 of None \<Rightarrow> None | Some t \<Rightarrow> Some (g\<lparr>child_idx := atoi p t\<rparr>))
      else Some g)"

fun parse_loop_checked :: "platform \<Rightarrow> string list \<Rightarrow> globals \<Rightarrow> globals option" where
  "parse_loop_checked p [] g = Some g"
| "parse_loop_checked p (a # rest) g =
     (case parse_arg_checked p a g of None \<Rightarrow> None | Some g' \<Rightarrow> parse_loop_checked p rest g')"

definition parse_args_checked :: "platform \<Rightarrow> string list \<Rightarrow> globals option" where
  "parse_args_checked p argv = parse_loop_checked p (drop 1 argv) initial_globals"

section \<open>The operating system as seen by one process\<close>

text \<open>
  What the program does is recorded as the list of its library and system calls, in program
  order, together with the way the process ends. A \<^verbatim>\<open>printf\<close> is recorded with its format
  string and its arguments, \<^verbatim>\<open>waitpid\<close> with its pid and its \<^verbatim>\<open>options\<close>, and
  \<^verbatim>\<open>WaitForSingleObject\<close> with its handle and its time-out in milliseconds.
\<close>

datatype fmt_arg = D int | LU nat | X "32 word" | S string

datatype action =
    Printf string "fmt_arg list"
  | Perror string
  | Sleep_s nat
  | Sleep_ms nat
  | Fork int
  | Execvp string "string list"
  | Waitpid int int
  | GetModuleFileNameA
  | CreateProcessA string
  | GetLastError
  | WaitForSingleObject nat nat
  | GetExitCodeProcess nat
  | CloseHandle nat

text \<open>
  How a process ends: \<^verbatim>\<open>main\<close> returns, \<^verbatim>\<open>_exit\<close> or \<^verbatim>\<open>ExitProcess\<close> is called, or
  \<^verbatim>\<open>execvp\<close> succeeds and the process goes on as a new image with the given arguments.
  \<open>Undefined\<close> stands for a run that reaches undefined behaviour of C: the model says
  nothing about what such a process does next.
\<close>

datatype outcome =
    Main_return int
  | Exit_call int
  | ExitProcess_call nat
  | Image_replaced string "string list"
  | Undefined

text \<open>The time-out \<^verbatim>\<open>INFINITE\<close> of \<^verbatim>\<open>WaitForSingleObject\<close>, \<^verbatim>\<open>0xFFFFFFFF\<close>.\<close>

definition INFINITE :: nat where
  "INFINITE = 4294967295"

text \<open>
  The exit code the operating system keeps for the process. For \<^verbatim>\<open>_exit (status)\<close> (and for
  a return from \<^verbatim>\<open>main\<close>) POSIX makes only the least significant 8 bits, \<^verbatim>\<open>status & 0377\<close>,
  available to the waiting parent; they are the byte that \<^verbatim>\<open>WEXITSTATUS\<close> reads below.
  Windows keeps the whole 32-bit \<^verbatim>\<open>UINT\<close> given to \<^verbatim>\<open>ExitProcess\<close>. A process whose image
  was replaced has not ended, and nothing is known of a run that is undefined.
\<close>

fun exit_code :: "platform \<Rightarrow> outcome \<Rightarrow> int option" where
  "exit_code Unix (Main_return v) = Some (v mod 256)"
| "exit_code Win32 (Main_return v) = Some (v mod 4294967296)"
| "exit_code p (Exit_call v) = Some (v mod 256)"
| "exit_code p (ExitProcess_call u) = Some (int u)"
| "exit_code p (Image_replaced f args) = None"
| "exit_code p Undefined = None"

record process_information =
  hProcess :: nat
  hThread :: nat
  dwProcessId :: nat

datatype create_result = Create_failed nat | Created process_information

text \<open>
  The answers of the operating system, as one process sees them. \<open>fork_result env i\<close> is
  the value the \<^verbatim>\<open>fork ()\<close> of loop iteration \<open>i\<close> returns in the process that is followed:
  negative on failure, the child's pid in the parent, 0 in the new child.
  \<open>waitpid_status env pid\<close> is the status \<^verbatim>\<open>waitpid\<close> stores, \<open>None\<close> when the call fails and
  stores nothing. \<open>create_process env i cmd\<close> is the result of the \<^verbatim>\<open>CreateProcessA\<close> of
  iteration \<open>i\<close>; \<open>exit_code_process env h\<close> is what \<^verbatim>\<open>GetExitCodeProcess\<close> stores,
  \<open>None\<close> when it fails.
\<close>

record os_env =
  pid_self :: int
  ppid_self :: int
  pid_forked :: int
  ppid_forked :: int
  fork_result :: "int \<Rightarrow> int"
  execvp_succeeds :: "string \<Rightarrow> string list \<Rightarrow> bool"
  waitpid_status :: "int \<Rightarrow> 32 word option"
  module_file_name :: string
  create_process :: "int \<Rightarrow> string \<Rightarrow> create_result"
  exit_code_process :: "nat \<Rightarrow> nat option"

section \<open>The child worker: \<^verbatim>\<open>child_work\<close>\<close>

text \<open>
  Both branches end in the abrupt exit call with \<^verbatim>\<open>child_idx\<close>; \<^verbatim>\<open>(UINT) child_idx\<close> is
  the value modulo \<open>2^32\<close>. The function never returns to \<^verbatim>\<open>main\<close>.
\<close>

definition child_work :: "platform \<Rightarrow> os_env \<Rightarrow> globals \<Rightarrow> action list \<times> outcome" where
  "child_work p env g =
     (case p of
        Win32 \<Rightarrow>
          ([Printf ''[child #%d] pid=%d: hello! working for 1s...\<newline>'' [D (child_idx g), D (pid_self env)],
            Sleep_ms 1000,
            Printf ''[child #%d] done.\<newline>'' [D (child_idx g)]],
           ExitProcess_call (nat (child_idx g mod 4294967296)))
      | Unix \<Rightarrow>
          ([Printf ''[child #%d] pid=%d ppid=%d: hello! working for 1s...\<newline>''
              [D (child_idx g), D (pid_self env), D (ppid_self env)],
            Sleep_s 1,
            Printf ''[child #%d] done.\<newline>'' [D (child_idx g)]],
           Exit_call (child_idx g)))"

section \<open>Decoding the wait status\<close>

text \<open>
  \<^verbatim>\<open>WIFEXITED\<close>, \<^verbatim>\<open>WEXITSTATUS\<close>, \<^verbatim>\<open>WIFSIGNALED\<close> and \<^verbatim>\<open>WTERMSIG\<close> are macros of the system
  header \<^verbatim>\<open>sys/wait.h\<close>, which is not part of the repository. They are written out as glibc
  defines them (\<^verbatim>\<open>bits/waitstatus.h\<close>):
  \<^verbatim>\<open>WTERMSIG(s) = s & 0x7f\<close>, \<^verbatim>\<open>WIFEXITED(s) = (WTERMSIG(s) == 0)\<close>,
  \<^verbatim>\<open>WEXITSTATUS(s) = (s & 0xff00) >> 8\<close> and
  \<^verbatim>\<open>WIFSIGNALED(s) = (((signed char) ((s & 0x7f) + 1) >> 1) > 0)\<close>.
  \<^verbatim>\<open>W_EXITCODE(ret, sig) = ret << 8 | sig\<close> is the same header's encoding of a status;
  a core dump sets bit \<^verbatim>\<open>0x80\<close>.
\<close>

definition WTERMSIG :: "32 word \<Rightarrow> 32 word" where
  "WTERMSIG s = s AND 0x7f"

definition WIFEXITED :: "32 word \<Rightarrow> bool" where
  "WIFEXITED s = (WTERMSIG s = 0)"

definition WEXITSTATUS :: "32 word \<Rightarrow> 32 word" where
  "WEXITSTATUS s = drop_bit 8 (s AND 0xff00)"

definition WIFSIGNALED :: "32 word \<Rightarrow> bool" where
  "WIFSIGNALED s = (0 < sint (ucast ((s AND 0x7f) + 1) :: 8 word) div 2)"

definition W_EXITCODE :: "32 word \<Rightarrow> 32 word \<Rightarrow> 32 word" where
  "W_EXITCODE ret sig = push_bit 8 ret OR sig"

text \<open>The three-way report of the parent, lines 242 to 253.\<close>

definition report_status :: "int \<Rightarrow> 32 word \<Rightarrow> action" where
  "report_status i status =
     (if WIFEXITED status then
        Printf ''[parent] Child #%d exited normally with code %d\<newline>'' [D i, D (sint (WEXITSTATUS status))]
      else if WIFSIGNALED status then
        Printf ''[parent] Child #%d was killed by signal %d\<newline>'' [D i, D (sint (WTERMSIG status))]
      else
        Printf ''[parent] Child #%d terminated with status 0x%x\<newline>'' [D i, X status])"

section \<open>The orchestrator: the parent branch of \<^verbatim>\<open>main\<close>\<close>

text \<open>
  Inside the loop every call is recorded together with the value of the loop variable
  \<^verbatim>\<open>i\<close> at the time of the call.
\<close>

type_synonym step = "int \<times> action"

text \<open>\<^verbatim>\<open>argv[0]\<close>; with \<^verbatim>\<open>argc = 0\<close> it is the null pointer \<^verbatim>\<open>argv[argc]\<close>.\<close>

definition argv0 :: "string list \<Rightarrow> string option" where
  "argv0 argv = (case argv of [] \<Rightarrow> None | a # rest \<Rightarrow> Some a)"

text \<open>\<^verbatim>\<open>char idarg[16]; snprintf (idarg, sizeof (idarg), "--id=%d", i);\<close>\<close>

definition idarg :: "int \<Rightarrow> string" where
  "idarg i = snprintf_c 16 (''--id='' @ show_int i)"

text \<open>The argument vector \<^verbatim>\<open>args\<close> of lines 214 to 219, before its closing \<^verbatim>\<open>NULL\<close>.\<close>

definition child_argv :: "string \<Rightarrow> int \<Rightarrow> string list" where
  "child_argv f i = [f, ''--child'', idarg i]"

text \<open>
  The branch \<^verbatim>\<open>pid == 0\<close>: the new process announces itself and calls \<^verbatim>\<open>execvp\<close>. When
  that succeeds the process continues as the new image; when it returns, the process ends
  with \<^verbatim>\<open>perror\<close> and \<^verbatim>\<open>_exit (127)\<close>. With \<^verbatim>\<open>argc = 0\<close> the pointer \<^verbatim>\<open>argv[0]\<close> is null:
  giving it to \<^verbatim>\<open>printf\<close> for \<^verbatim>\<open>%s\<close> and to \<^verbatim>\<open>execvp\<close> as the file name is undefined
  behaviour (glibc's \<^verbatim>\<open>execvp\<close> dies of a segmentation fault there), so after the first
  line the run is \<open>Undefined\<close>.
\<close>

definition exec_child :: "os_env \<Rightarrow> string list \<Rightarrow> int \<Rightarrow> step list \<times> outcome" where
  "exec_child env argv i =
     (let hello =
            (i, Printf (''[child #%d] I'' @ [CHR 0x27] @ ''m the child! My PID: %d, Parent PID: %d\<newline>'')
                  [D i, D (pid_forked env), D (ppid_forked env)])
      in case argv0 argv of
           None \<Rightarrow> ([hello], Undefined)
         | Some f \<Rightarrow>
             (let args = child_argv f i;
                  announce =
                    [hello,
                     (i, Printf ''[child #%d] Executing: %s %s %s\<newline>'' (D i # map S args)),
                     (i, Execvp f args)]
              in if execvp_succeeds env f args
                 then (announce, Image_replaced f args)
                 else (announce @ [(i, Perror ''[child] execvp failed'')], Exit_call 127)))"

text \<open>
  One pass through the body of the Unix loop (lines 188 to 254). The second component is
  \<open>None\<close> when control reaches the end of the body or its \<^verbatim>\<open>continue\<close>, and the way the
  process ended otherwise. \<^verbatim>\<open>waitpid (pid, &status, 0)\<close> has no option set, so it
  returns only when that child has ended or the call fails. \<^verbatim>\<open>status\<close> starts as 0 and
  keeps that value when \<^verbatim>\<open>waitpid\<close> fails, since its result is not looked at.
\<close>

definition iteration_unix :: "os_env \<Rightarrow> string list \<Rightarrow> int \<Rightarrow> step list \<times> outcome option" where
  "iteration_unix env argv i =
     (let pid = fork_result env i;
          attempt =
            [(i, Printf ''\<newline>[parent] Creating child process #%d...\<newline>'' [D i]),
             (i, Fork pid)]
      in if pid < 0 then (attempt @ [(i, Perror ''[parent] fork failed'')], None)
         else if pid = 0 then
           (case exec_child env argv i of (tr, out) \<Rightarrow> (attempt @ tr, Some out))
         else
           (attempt @
            [(i, Printf ''[parent] Successfully created child #%d (pid=%d)\<newline>'' [D i, D pid]),
             (i, Printf ''[parent] Waiting for child #%d to finish...\<newline>'' [D i]),
             (i, Waitpid pid 0),
             (i, report_status i (case waitpid_status env pid of None \<Rightarrow> 0 | Some s \<Rightarrow> s))],
            None))"

text \<open>
  \<^verbatim>\<open>char cmd[512]; snprintf (cmd, sizeof (cmd), "\"%s\" --child --id=%d", self, i);\<close>
\<close>

definition command_line :: "string \<Rightarrow> int \<Rightarrow> string" where
  "command_line self i =
     snprintf_c 512 ([CHR 0x22] @ self @ [CHR 0x22] @ '' --child --id='' @ show_int i)"

text \<open>
  One pass through the body of the Windows loop (lines 116 to 178). The results of
  \<^verbatim>\<open>WaitForSingleObject\<close> and \<^verbatim>\<open>GetExitCodeProcess\<close> are not looked at; \<^verbatim>\<open>ec\<close> starts as 0.
\<close>

definition iteration_win32 :: "os_env \<Rightarrow> string \<Rightarrow> int \<Rightarrow> step list \<times> outcome option" where
  "iteration_win32 env self i =
     (let cmd = command_line self i;
          attempt =
            [(i, Printf ''\<newline>[parent] Creating child process #%d...\<newline>'' [D i]),
             (i, Printf ''[parent] Command: %s\<newline>'' [S cmd]),
             (i, CreateProcessA cmd)]
      in case create_process env i cmd of
           Create_failed e \<Rightarrow>
             (attempt @
              [(i, GetLastError),
               (i, Printf ''[parent] CreateProcess failed (error code: %lu)\<newline>'' [LU e])],
              None)
         | Created pi \<Rightarrow>
             (attempt @
              [(i, Printf ''[parent] Successfully spawned child #%d (pid=%lu)\<newline>'' [D i, LU (dwProcessId pi)]),
               (i, Printf ''[parent] Waiting for child #%d to finish...\<newline>'' [D i]),
               (i, WaitForSingleObject (hProcess pi) INFINITE),
               (i, GetExitCodeProcess (hProcess pi)),
               (i, Printf ''[parent] Child #%d exited with code %lu\<newline>''
                     [D i, LU (case exit_code_process env (hProcess pi) of None \<Rightarrow> 0 | Some c \<Rightarrow> c)]),
               (i, CloseHandle (hThread pi)),
               (i, CloseHandle (hProcess pi))],
              None))"

text \<open>
  \<^verbatim>\<open>for (int i = 1; i <= 2; ++i) { body }\<close>, the loop of both branches, started at \<open>i\<close>.
  It stops early only when the body ends the process.
\<close>

function for_loop :: "(int \<Rightarrow> step list \<times> outcome option) \<Rightarrow> int \<Rightarrow> step list \<times> outcome option" where
  "for_loop body i =
     (if i \<le> 2 then
        (case body i of
           (tr, Some out) \<Rightarrow> (tr, Some out)
         | (tr, None) \<Rightarrow> (case for_loop body (i + 1) of (rest, out) \<Rightarrow> (tr @ rest, out)))
      else ([], None))"
  by pat_completeness auto
termination
  by (relation "measure (\<lambda>(body, i). nat (3 - i))") auto

declare for_loop.simps [simp del]

text \<open>
  The parent branch of \<^verbatim>\<open>main\<close> from line 103 on: the opening lines, the loop from
  \<open>i = 1\<close>, and, when the loop runs to its end, the closing lines and \<^verbatim>\<open>return 0\<close>.
\<close>

definition parent_loop :: "platform \<Rightarrow> os_env \<Rightarrow> string list \<Rightarrow> step list \<times> outcome option" where
  "parent_loop p env argv =
     (case p of
        Win32 \<Rightarrow> for_loop (iteration_win32 env (module_file_name env)) 1
      | Unix \<Rightarrow> for_loop (iteration_unix env argv) 1)"

definition parent_opening :: "platform \<Rightarrow> os_env \<Rightarrow> action list" where
  "parent_opening p env =
     (case p of
        Win32 \<Rightarrow>
          [Printf ''[parent] starting. (this is the terminal)\<newline>'' [],
           GetModuleFileNameA,
           Printf ''[parent] My executable path: %s\<newline>'' [S (module_file_name env)]]
      | Unix \<Rightarrow>
          [Printf ''[parent] starting. (this is the terminal)\<newline>'' [],
           Printf ''[parent] My PID: %d\<newline>'' [D (pid_self env)]])"

definition parent_work :: "platform \<Rightarrow> os_env \<Rightarrow> string list \<Rightarrow> action list \<times> outcome" where
  "parent_work p env argv =
     (case parent_loop p env argv of
        (tr, Some out) \<Rightarrow> (parent_opening p env @ map snd tr, out)
      | (tr, None) \<Rightarrow>
          (parent_opening p env @ map snd tr @
           [Printf ''\<newline>[parent] All child processes completed successfully!\<newline>'' [],
            Printf ''[parent] Parent process terminating...\<newline>'' []],
           Main_return 0))"

section \<open>\<^verbatim>\<open>main\<close>\<close>

text \<open>
  \<^verbatim>\<open>main\<close> after its call of \<^verbatim>\<open>parse_args\<close>: the test of \<^verbatim>\<open>is_child\<close>. The
  \<^verbatim>\<open>return 0\<close> after \<^verbatim>\<open>child_work ()\<close> is never reached, since \<^verbatim>\<open>child_work\<close> ends the
  process.
\<close>

definition run_role :: "platform \<Rightarrow> os_env \<Rightarrow> string list \<Rightarrow> globals \<Rightarrow> action list \<times> outcome" where
  "run_role p env argv g =
     (if is_child g \<noteq> 0 then child_work p env g else parent_work p env argv)"

definition main :: "platform \<Rightarrow> os_env \<Rightarrow> string list \<Rightarrow> action list \<times> outcome" where
  "main p env argv = run_role p env argv (parse_args p argv)"

section \<open>Vocabulary of the properties\<close>

text \<open>A spawn attempt is a call of \<^verbatim>\<open>fork\<close> or \<^verbatim>\<open>CreateProcessA\<close>; a wait is a call of
  \<^verbatim>\<open>waitpid\<close> or \<^verbatim>\<open>WaitForSingleObject\<close>.\<close>

definition is_spawn :: "action \<Rightarrow> bool" where
  "is_spawn a = (case a of Fork r \<Rightarrow> True | CreateProcessA c \<Rightarrow> True | _ \<Rightarrow> False)"

definition is_wait :: "action \<Rightarrow> bool" where
  "is_wait a = (case a of Waitpid r opts \<Rightarrow> True | WaitForSingleObject h ms \<Rightarrow> True | _ \<Rightarrow> False)"

text \<open>The spawn call of iteration \<open>i\<close>, and whether the operating system refuses it.\<close>

definition spawn_call :: "platform \<Rightarrow> os_env \<Rightarrow> int \<Rightarrow> action" where
  "spawn_call p env i =
     (case p of
        Win32 \<Rightarrow> CreateProcessA (command_line (module_file_name env) i)
      | Unix \<Rightarrow> Fork (fork_result env i))"

definition spawn_failed :: "platform \<Rightarrow> os_env \<Rightarrow> int \<Rightarrow> bool" where
  "spawn_failed p env i =
     (case p of
        Win32 \<Rightarrow>
          (case create_process env i (command_line (module_file_name env) i) of
             Create_failed e \<Rightarrow> True
           | Created pi \<Rightarrow> False)
      | Unix \<Rightarrow> fork_result env i < 0)"

text \<open>
  The process that is followed stays the orchestrator: on Unix neither \<^verbatim>\<open>fork\<close> returns 0
  in it (where \<^verbatim>\<open>fork\<close> returns 0 the process followed is the new child, which leaves the
  loop through \<^verbatim>\<open>execvp\<close> or \<^verbatim>\<open>_exit\<close>). On Windows there is nothing to ask.
\<close>

definition stays_parent :: "platform \<Rightarrow> os_env \<Rightarrow> bool" where
  "stays_parent p env = (case p of Win32 \<Rightarrow> True | Unix \<Rightarrow> fork_result env 1 \<noteq> 0 \<and> fork_result env 2 \<noteq> 0)"

text \<open>
  The text after \<^verbatim>\<open>--id=\<close> starts a number when, after leading white space and one optional
  sign, a decimal digit comes next.
\<close>

definition starts_number :: "string \<Rightarrow> bool" where
  "starts_number s =
     (case dropWhile isspace_c s of
        [] \<Rightarrow> False
      | c # r \<Rightarrow>
          if c = CHR ''-'' \<or> c = CHR ''+'' then (case r of [] \<Rightarrow> False | d # r' \<Rightarrow> isdigit_c d)
          else isdigit_c c)"

text \<open>The number that a string of decimal digits denotes.\<close>

definition decimal :: "string \<Rightarrow> int" where
  "decimal ds = foldl (\<lambda>v c. 10 * v + digit_of c) 0 ds"

text \<open>
  The spawn call of iteration \<open>i\<close>, followed, when the operating system did not refuse it,
  by the blocking wait for exactly the process it created.
\<close>

definition spawn_then_wait :: "platform \<Rightarrow> os_env \<Rightarrow> int \<Rightarrow> action list" where
  "spawn_then_wait p env i =
     (case p of
        Win32 \<Rightarrow>
          (case create_process env i (command_line (module_file_name env) i) of
             Create_failed e \<Rightarrow> [CreateProcessA (command_line (module_file_name env) i)]
           | Created pi \<Rightarrow>
               [CreateProcessA (command_line (module_file_name env) i),
                WaitForSingleObject (hProcess pi) INFINITE])
      | Unix \<Rightarrow>
          (if fork_result env i < 0 then [Fork (fork_result env i)]
           else [Fork (fork_result env i), Waitpid (fork_result env i) 0]))"

text \<open>
  Raw wait statuses as the kernel makes them: a normal exit with code \<open>K\<close>, and a death by
  signal \<open>sig\<close> with or without a core dump (\<^verbatim>\<open>__WCOREFLAG\<close> is \<^verbatim>\<open>0x80\<close>).
\<close>

definition status_exited :: "nat \<Rightarrow> 32 word" where
  "status_exited K = W_EXITCODE (of_nat K) 0"

definition status_signaled :: "nat \<Rightarrow> bool \<Rightarrow> 32 word" where
  "status_signaled sig core = W_EXITCODE 0 (of_nat sig) OR (if core then 0x80 else 0)"

text \<open>The body of the loop that \<open>parent_loop\<close> runs on the given platform.\<close>

definition loop_body :: "platform \<Rightarrow> os_env \<Rightarrow> string list \<Rightarrow> int \<Rightarrow> step list \<times> outcome option" where
  "loop_body p env argv =
     (case p of Win32 \<Rightarrow> iteration_win32 env (module_file_name env) | Unix \<Rightarrow> iteration_unix env argv)"

text \<open>
  The \<^verbatim>\<open>execvp\<close> of iteration \<open>i\<close> is called with a file name and returns, that is, the
  operating system refuses it.
\<close>

definition exec_fails :: "os_env \<Rightarrow> string list \<Rightarrow> int \<Rightarrow> bool" where
  "exec_fails env argv i =
     (case argv0 argv of None \<Rightarrow> False | Some f \<Rightarrow> \<not> execvp_succeeds env f (child_argv f i))"

text \<open>
  A sample environment: both spawns succeed, every \<^verbatim>\<open>execvp\<close> succeeds, and every child is
  reported as having exited normally.
\<close>

definition demo_env :: os_env where
  "demo_env =
     \<lparr>pid_self = 100, ppid_self = 99, pid_forked = 101, ppid_forked = 100,
      fork_result = (\<lambda>i. 100 + i),
      execvp_succeeds = (\<lambda>f args. True),
      waitpid_status = (\<lambda>pid. Some (status_exited (nat (pid - 100)))),
      module_file_name = ''proc_demo.exe'',
      create_process = (\<lambda>i cmd. Created \<lparr>hProcess = nat (2 * i), hThread = nat (2 * i + 1), dwProcessId = nat (200 + i)\<rparr>),
      exit_code_process = (\<lambda>h. Some (h div 2))\<rparr>"

text \<open>The same environment with the first spawn refused.\<close>

definition demo_env_spawn1_fails :: os_env where
  "demo_env_spawn1_fails =
     demo_env\<lparr>fork_result := (\<lambda>i. if i = 1 then - 1 else 100 + i),
              create_process := (\<lambda>i cmd. if i = 1 then Create_failed 2 else create_process demo_env i cmd)\<rparr>"

text \<open>
  The environment of a process that \<^verbatim>\<open>fork\<close> has just created (every \<^verbatim>\<open>fork\<close> returns
  0 in it), with \<^verbatim>\<open>execvp\<close> succeeding and with \<^verbatim>\<open>execvp\<close> failing.
\<close>

definition demo_env_forked :: os_env where
  "demo_env_forked = demo_env\<lparr>fork_result := (\<lambda>i. 0)\<rparr>"

definition demo_env_exec_fails :: os_env where
  "demo_env_exec_fails = demo_env\<lparr>fork_result := (\<lambda>i. 0), execvp_succeeds := (\<lambda>f args. False)\<rparr>"

section \<open>Lemmas on the argument loop\<close>

lemma parse_loop_append: "parse_loop p (xs @ ys) g = parse_loop p ys (parse_loop p xs g)"
  by (induction xs arbitrary: g) simp_all

lemma is_child_parse_loop:
  "is_child (parse_loop p xs g) = (if ''--child'' \<in> set xs then 1 else is_child g)"
  by (induction xs arbitrary: g) (auto simp: parse_arg_def)

lemma child_idx_parse_loop_no_id:
  "\<forall>a\<in>set xs. take 5 a \<noteq> ''--id='' \<Longrightarrow> child_idx (parse_loop p xs g) = child_idx g"
  by (induction xs arbitrary: g) (auto simp: parse_arg_def)

lemma parse_arg_id: "parse_arg p (''--id='' @ t) g = g\<lparr>child_idx := atoi p t\<rparr>"
  by (simp add: parse_arg_def)

section \<open>Lemmas on printing and reading decimal numbers\<close>

lemma isdigit_digit_char: "d < 10 \<Longrightarrow> isdigit_c (digit_char d)"
  by (simp add: isdigit_c_def digit_char_def)

lemma digit_of_digit_char: "d < 10 \<Longrightarrow> digit_of (digit_char d) = int d"
  by (simp add: digit_of_def digit_char_def)

lemma digits_value_snoc:
  "\<forall>c\<in>set xs. isdigit_c c \<Longrightarrow> isdigit_c d \<Longrightarrow>
     digits_value acc (xs @ [d]) = 10 * digits_value acc xs + digit_of d"
  by (induction xs arbitrary: acc) simp_all

lemma show_nat_digits: "\<forall>c\<in>set (show_nat n). isdigit_c c"
  by (induction n rule: show_nat.induct) (subst show_nat.simps, simp add: isdigit_digit_char)

lemma digits_value_show_nat: "digits_value 0 (show_nat n) = int n"
proof (induction n rule: show_nat.induct)
  case (1 n)
  show ?case
  proof (cases "n < 10")
    case True
    then show ?thesis
      by (subst show_nat.simps) (simp add: isdigit_digit_char digit_of_digit_char)
  next
    case False
    with 1 have ih: "digits_value 0 (show_nat (n div 10)) = int (n div 10)" by simp
    have "digits_value 0 (show_nat (n div 10) @ [digit_char (n mod 10)])
            = 10 * digits_value 0 (show_nat (n div 10)) + digit_of (digit_char (n mod 10))"
      by (rule digits_value_snoc) (simp_all add: show_nat_digits isdigit_digit_char)
    moreover have "10 * int (n div 10) + int (n mod 10) = int n" by presburger
    ultimately show ?thesis using False ih
      by (subst show_nat.simps) (simp add: digit_of_digit_char)
  qed
qed

lemma show_nat_not_Nil: "show_nat n \<noteq> []"
  by (subst show_nat.simps) simp

lemma isdigit_not_space: "isdigit_c c \<Longrightarrow> \<not> isspace_c c \<and> c \<noteq> CHR ''-'' \<and> c \<noteq> CHR ''+''"
  by (auto simp: isdigit_c_def isspace_c_def)

lemma parse_decimal_show_nat: "parse_decimal (show_nat n) = int n"
proof -
  obtain c r where cr: "show_nat n = c # r"
    using show_nat_not_Nil by (cases "show_nat n") auto
  then have "isdigit_c c" using show_nat_digits [of n] by simp
  then have "\<not> isspace_c c" "c \<noteq> CHR ''-''" "c \<noteq> CHR ''+''"
    using isdigit_not_space by auto
  then have "parse_decimal (c # r) = digits_value 0 (c # r)"
    by (simp add: parse_decimal_def)
  then show ?thesis using cr digits_value_show_nat [of n] by simp
qed

lemma parse_decimal_show_int: "parse_decimal (show_int i) = i"
proof (cases "i < 0")
  case True
  obtain c r where cr: "show_nat (nat (- i)) = c # r"
    using show_nat_not_Nil by (cases "show_nat (nat (- i))") auto
  have "parse_decimal (CHR ''-'' # show_nat (nat (- i))) = - digits_value 0 (show_nat (nat (- i)))"
    by (simp add: parse_decimal_def isspace_c_def)
  with True show ?thesis by (simp add: show_int_def digits_value_show_nat)
next
  case False
  then show ?thesis by (simp add: show_int_def parse_decimal_show_nat)
qed

lemma atoi_show_int: "INT_MIN \<le> i \<Longrightarrow> i \<le> INT_MAX \<Longrightarrow> atoi p (show_int i) = i"
  by (cases p) (simp_all add: atoi_def parse_decimal_show_int clamp_def to_int32_def INT_MIN_def INT_MAX_def)

lemma length_show_nat: "0 < k \<Longrightarrow> n < 10 ^ k \<Longrightarrow> length (show_nat n) \<le> k"
proof (induction n arbitrary: k rule: show_nat.induct)
  case (1 n)
  show ?case
  proof (cases "n < 10")
    case True
    with 1(2) show ?thesis by (subst show_nat.simps) simp
  next
    case False
    with 1(3) obtain k' where k': "k = Suc k'" "0 < k'"
      by (cases k; cases "k - 1") auto
    with 1(3) have "n div 10 < 10 ^ k'" by (simp add: less_mult_imp_div_less mult.commute)
    with 1(1) [OF False k'(2)] have "length (show_nat (n div 10)) \<le> k'" by simp
    with False k' show ?thesis by (subst show_nat.simps) simp
  qed
qed

section \<open>Lemmas on the index argument\<close>

lemma parse_args_Cons: "parse_args p (a0 # rest) = parse_loop p rest initial_globals"
  by (simp add: parse_args_def)

lemma parse_loop_last_id:
  assumes "\<forall>a\<in>set post. take 5 a \<noteq> ''--id=''"
  shows "child_idx (parse_loop p (pre @ [''--id='' @ t] @ post) g) = atoi p t"
proof -
  have "parse_loop p (pre @ [x] @ post) g = parse_loop p post (parse_arg p x (parse_loop p pre g))" for x
    by (simp add: parse_loop_append)
  then have "child_idx (parse_loop p (pre @ [''--id='' @ t] @ post) g)
               = child_idx (parse_arg p (''--id='' @ t) (parse_loop p pre g))"
    using assms by (simp only: child_idx_parse_loop_no_id)
  also have "\<dots> = atoi p t"
    by (simp only: parse_arg_id) simp
  finally show ?thesis .
qed

lemma digits_value_stops:
  "\<forall>c\<in>set xs. isdigit_c c \<Longrightarrow> rest = [] \<or> \<not> isdigit_c (hd rest) \<Longrightarrow>
     digits_value acc (xs @ rest) = digits_value acc xs"
proof (induction xs arbitrary: acc)
  case Nil
  then show ?case by (cases rest) auto
next
  case (Cons c cs)
  then show ?case by simp
qed

lemma parse_decimal_not_number: "\<not> starts_number s \<Longrightarrow> parse_decimal s = 0"
proof (cases "dropWhile isspace_c s")
  case Nil
  show ?thesis unfolding parse_decimal_def Nil by simp
next
  case (Cons c r)
  assume no: "\<not> starts_number s"
  show ?thesis
  proof (cases "c = CHR ''-'' \<or> c = CHR ''+''")
    case True
    with no Cons have "r = [] \<or> \<not> isdigit_c (hd r)"
      by (cases r) (auto simp: starts_number_def)
    then have "digits_value 0 r = 0" by (cases r) auto
    with True Cons show ?thesis by (auto simp: parse_decimal_def)
  next
    case False
    with no Cons have "\<not> isdigit_c c" by (simp add: starts_number_def)
    with False Cons show ?thesis by (simp add: parse_decimal_def)
  qed
qed

lemma atoi_zero: "parse_decimal s = 0 \<Longrightarrow> atoi p s = 0"
  by (cases p) (simp_all add: atoi_def clamp_def to_int32_def INT_MIN_def INT_MAX_def)

lemma parse_decimal_show_int_prefix:
  assumes "rest = [] \<or> \<not> isdigit_c (hd rest)"
  shows "parse_decimal (show_int n @ rest) = n"
proof -
  have stop: "digits_value 0 (show_nat k @ rest) = int k" for k
    using digits_value_stops [OF show_nat_digits assms] digits_value_show_nat by simp
  obtain c r where cr: "show_nat (nat n) = c # r"
    using show_nat_not_Nil by (cases "show_nat (nat n)") auto
  then have "isdigit_c c" using show_nat_digits [of "nat n"] by simp
  then have c: "\<not> isspace_c c" "c \<noteq> CHR ''-''" "c \<noteq> CHR ''+''"
    using isdigit_not_space by auto
  show ?thesis
  proof (cases "n < 0")
    case True
    have "parse_decimal (CHR ''-'' # show_nat (nat (- n)) @ rest) = - digits_value 0 (show_nat (nat (- n)) @ rest)"
      by (simp add: parse_decimal_def isspace_c_def)
    with True show ?thesis by (simp add: show_int_def stop)
  next
    case False
    have "parse_decimal ((c # r) @ rest) = digits_value 0 ((c # r) @ rest)"
      using c by (simp add: parse_decimal_def)
    with False cr show ?thesis using stop [of "nat n"] by (simp add: show_int_def)
  qed
qed

lemma atoi_in_range:
  "INT_MIN \<le> parse_decimal s \<Longrightarrow> parse_decimal s \<le> INT_MAX \<Longrightarrow> atoi p s = parse_decimal s"
  by (cases p) (simp_all add: atoi_def clamp_def to_int32_def INT_MIN_def INT_MAX_def)

lemma length_show_int:
  assumes "- 999999999 \<le> i" "i \<le> 2147483647"
  shows "length (show_int i) \<le> 10"
proof (cases "i < 0")
  case True
  with assms have "nat (- i) < 10 ^ 9" by simp
  then have "length (show_nat (nat (- i))) \<le> 9" by (intro length_show_nat) simp_all
  with True show ?thesis by (simp add: show_int_def)
next
  case False
  with assms have "nat i < 10 ^ 10" by simp
  then have "length (show_nat (nat i)) \<le> 10" by (intro length_show_nat) simp_all
  with False show ?thesis by (simp add: show_int_def)
qed

lemma idarg_fits:
  assumes "- 999999999 \<le> i" "i \<le> 2147483647"
  shows "idarg i = ''--id='' @ show_int i"
  using length_show_int [OF assms] by (simp add: idarg_def snprintf_c_def)

section \<open>Lemmas on the loop\<close>

lemma for_loop_3: "for_loop body 3 = ([], None)"
  by (subst for_loop.simps) simp

lemma for_loop_2:
  "for_loop body 2 = (case body 2 of (t2, Some out) \<Rightarrow> (t2, Some out) | (t2, None) \<Rightarrow> (t2, None))"
  by (subst for_loop.simps) (simp add: for_loop_3 split: prod.splits option.splits)

lemma for_loop_1:
  "for_loop body 1 =
     (case body 1 of
        (t1, Some out) \<Rightarrow> (t1, Some out)
      | (t1, None) \<Rightarrow>
          (case body 2 of (t2, Some out) \<Rightarrow> (t1 @ t2, Some out) | (t2, None) \<Rightarrow> (t1 @ t2, None)))"
  by (subst for_loop.simps) (simp add: for_loop_2 split: prod.splits option.splits)

lemma for_loop_both:
  assumes "snd (body 1) = None" and "snd (body 2) = None"
  shows "for_loop body 1 = (fst (body 1) @ fst (body 2), None)"
  using assms by (cases "body 1"; cases "body 2") (simp add: for_loop_1)

lemma parent_loop_body: "parent_loop p env argv = for_loop (loop_body p env argv) 1"
  by (cases p) (simp_all add: parent_loop_def loop_body_def)

lemma iteration_win32_goes_on: "snd (iteration_win32 env self i) = None"
  by (simp add: iteration_win32_def Let_def split: create_result.splits)

lemma iteration_unix_goes_on: "fork_result env i \<noteq> 0 \<Longrightarrow> snd (iteration_unix env argv i) = None"
  by (simp add: iteration_unix_def Let_def)

lemma loop_body_goes_on:
  "stays_parent p env \<Longrightarrow> i = 1 \<or> i = 2 \<Longrightarrow> snd (loop_body p env argv i) = None"
  by (cases p) (auto simp: loop_body_def stays_parent_def iteration_win32_goes_on iteration_unix_goes_on)

lemma loop_body_labels: "\<forall>s\<in>set (fst (loop_body p env argv i)). fst s = i"
  by (cases p)
    (auto simp: loop_body_def iteration_win32_def iteration_unix_def exec_child_def Let_def
      split: create_result.splits option.splits)

lemma is_spawn_simps:
  "is_spawn (Fork r)" "is_spawn (CreateProcessA c)" "\<not> is_spawn (Printf f a)"
  "\<not> is_spawn (Perror m)" "\<not> is_spawn (Execvp f' a')" "\<not> is_spawn (Waitpid r opts)"
  "\<not> is_spawn GetLastError" "\<not> is_spawn GetModuleFileNameA" "\<not> is_spawn (WaitForSingleObject h ms)"
  "\<not> is_spawn (GetExitCodeProcess h)" "\<not> is_spawn (CloseHandle h)"
  "\<not> is_spawn (report_status i st)"
  by (simp_all add: is_spawn_def report_status_def)

lemma is_wait_simps:
  "is_wait (Waitpid r opts)" "is_wait (WaitForSingleObject h ms)" "\<not> is_wait (Printf f a)"
  "\<not> is_wait (Perror m)" "\<not> is_wait (Execvp f' a')" "\<not> is_wait (Fork r)"
  "\<not> is_wait GetLastError" "\<not> is_wait GetModuleFileNameA" "\<not> is_wait (CreateProcessA c)"
  "\<not> is_wait (GetExitCodeProcess h)" "\<not> is_wait (CloseHandle h)"
  "\<not> is_wait (report_status i st)"
  by (simp_all add: is_wait_def report_status_def)

lemma loop_body_spawns:
  "filter (is_spawn \<circ> snd) (fst (loop_body p env argv i)) = [(i, spawn_call p env i)]"
  by (cases p)
    (auto simp: loop_body_def iteration_win32_def iteration_unix_def exec_child_def Let_def
      spawn_call_def is_spawn_simps split: create_result.splits option.splits)

lemma loop_body_failed_no_wait:
  "spawn_failed p env i \<Longrightarrow> filter (is_wait \<circ> snd) (fst (loop_body p env argv i)) = []"
  by (cases p)
    (auto simp: loop_body_def iteration_win32_def iteration_unix_def Let_def spawn_failed_def
      is_wait_simps split: create_result.splits)

lemma parent_loop_stays:
  assumes "stays_parent p env"
  shows "parent_loop p env argv = (fst (loop_body p env argv 1) @ fst (loop_body p env argv 2), None)"
  unfolding parent_loop_body
  by (rule for_loop_both) (simp_all add: loop_body_goes_on [OF assms])

lemma sorted_labels:
  assumes "\<forall>s\<in>set t1. fst s = (1::int)" and "\<forall>s\<in>set t2. fst s = (2::int)"
  shows "sorted (map fst (t1 @ t2))"
proof -
  have "sorted (map fst t1)" "sorted (map fst t2)"
    using assms by (simp_all add: sorted_wrt_iff_nth_less) 
  then show ?thesis using assms by (auto simp: sorted_append)
qed

lemma sorted_labels_order:
  assumes "sorted (map fst tr)" and "j < length tr" and "k < length tr"
    and "fst (tr ! j) < fst (tr ! k)"
  shows "j < k"
proof (rule ccontr)
  assume "\<not> j < k"
  then have "k \<le> j" by simp
  with assms(1,2) have "map fst tr ! k \<le> map fst tr ! j"
    by (simp add: sorted_iff_nth_mono)
  with assms show False by simp
qed

lemma is_spawn_not_closing:
  "filter is_spawn (parent_opening p env) = []"
  by (cases p) (simp_all add: parent_opening_def is_spawn_simps)

lemma filter_map_snd: "filter P (map snd xs) = map snd (filter (P \<circ> snd) xs)"
  by (induction xs) simp_all

section \<open>Lemmas on the child path\<close>

lemma parse_args_child_argv:
  assumes "- 999999999 \<le> i" and "i \<le> 2147483647"
  shows "parse_args p (child_argv f i) = \<lparr>is_child = 1, child_idx = i\<rparr>"
proof -
  have "atoi p (show_int i) = i"
    using assms by (intro atoi_show_int) (simp_all add: INT_MIN_def INT_MAX_def)
  then show ?thesis
    by (simp add: child_argv_def idarg_fits [OF assms] parse_args_def parse_arg_def initial_globals_def)
qed

lemma iteration_unix_ends:
  assumes "snd (iteration_unix env argv i) = Some out"
  shows "fork_result env i = 0 \<and>
         (out = Exit_call 127 \<and> exec_fails env argv i \<or> out = Undefined \<and> argv0 argv = None \<or>
          (\<exists>f. argv0 argv = Some f \<and> out = Image_replaced f (child_argv f i)))"
  using assms
  by (auto simp: iteration_unix_def exec_child_def exec_fails_def Let_def
      split: if_splits option.splits)

lemma for_loop_ends:
  assumes "snd (for_loop body 1) = Some out"
  shows "snd (body 1) = Some out \<or> snd (body 2) = Some out"
  using assms by (cases "body 1"; cases "body 2") (auto simp: for_loop_1 split: option.splits)

lemma parent_work_unix_ends:
  assumes "snd (parent_work Unix env argv) = Image_replaced f args"
  shows "args = child_argv f 1 \<or> args = child_argv f 2"
proof -
  have "snd (parent_loop Unix env argv) = Some (Image_replaced f args)"
    using assms by (cases "parent_loop Unix env argv") (auto simp: parent_work_def split: option.splits)
  then have "snd (iteration_unix env argv 1) = Some (Image_replaced f args) \<or>
             snd (iteration_unix env argv 2) = Some (Image_replaced f args)"
    unfolding parent_loop_def by (auto dest: for_loop_ends)
  then show ?thesis by (auto dest!: iteration_unix_ends)
qed

lemma child_exit_unix:
  "exit_code Unix (snd (child_work Unix env g)) = Some (child_idx g mod 256)"
  by (simp add: child_work_def)

lemma exec_failure_ends_loop:
  assumes "i = 1 \<or> i = 2" and "i = 2 \<longrightarrow> fork_result env 1 \<noteq> 0"
    and "fork_result env i = 0" and "exec_fails env argv i"
  shows "\<exists>tr. parent_loop Unix env argv = (tr @ [(i, Perror ''[child] execvp failed'')], Some (Exit_call 127))"
proof -
  have it: "\<exists>tr. iteration_unix env argv i = (tr @ [(i, Perror ''[child] execvp failed'')], Some (Exit_call 127))"
    using assms(3,4)
    by (auto simp: iteration_unix_def exec_child_def exec_fails_def Let_def split: option.splits)
  show ?thesis
  proof (cases "i = 1")
    case True
    with it show ?thesis by (auto simp: parent_loop_def for_loop_1)
  next
    case False
    with assms have i: "i = 2" and "snd (iteration_unix env argv 1) = None"
      by (simp_all add: iteration_unix_goes_on)
    then obtain t1 where "iteration_unix env argv 1 = (t1, None)"
      by (cases "iteration_unix env argv 1") auto
    with it i show ?thesis by (auto simp: parent_loop_def for_loop_1)
  qed
qed

section \<open>Lemmas on the wait status\<close>

lemma low7_le: "uint (s AND (0x7f :: 32 word)) \<le> 127"
proof -
  have "s AND 0x7f \<le> 0x7f" by (rule word_and_le1)
  then show ?thesis by (simp add: word_le_def)
qed

lemma uint_low7_succ: "uint ((s AND (0x7f :: 32 word)) + 1) = uint (s AND 0x7f) + 1"
proof -
  have "uint ((s AND 0x7f) + 1) = (uint (s AND 0x7f) + 1) mod 2 ^ 32"
    by (simp add: uint_word_ariths)
  moreover have "0 \<le> uint (s AND 0x7f)" by simp
  ultimately show ?thesis using low7_le [of s] by simp
qed

lemma signed_take_bit_7: "signed_take_bit 7 k = (k + 128) mod 256 - 128" for k :: int
  by (simp add: signed_take_bit_eq_take_bit_shift take_bit_eq_mod)

lemma signed_char_low7:
  "sint (ucast ((s AND (0x7f :: 32 word)) + 1) :: 8 word) = (uint (s AND 0x7f) + 129) mod 256 - 128"
proof -
  have "sint (ucast ((s AND 0x7f) + 1) :: 8 word) = signed_take_bit 7 (uint ((s AND 0x7f) + 1))"
    by (simp add: signed_ucast_eq)
  also have "\<dots> = signed_take_bit 7 (uint (s AND 0x7f) + 1)"
    by (simp only: uint_low7_succ)
  also have "\<dots> = (uint (s AND 0x7f) + 1 + 128) mod 256 - 128"
    by (rule signed_take_bit_7)
  also have "uint (s AND 0x7f) + 1 + 128 = uint (s AND 0x7f) + 129"
    by simp
  finally show ?thesis .
qed

lemma WIFSIGNALED_iff: "WIFSIGNALED s \<longleftrightarrow> 1 \<le> uint (WTERMSIG s) \<and> uint (WTERMSIG s) \<le> 126"
proof -
  define u where "u = uint (s AND 0x7f)"
  have range: "0 \<le> u" "u \<le> 127"
    using low7_le [of s] by (simp_all add: u_def)
  have "(0 < ((u + 129) mod 256 - 128) div 2) = (1 \<le> u \<and> u \<le> 126)"
  proof (cases "u = 127")
    case True
    then show ?thesis by simp
  next
    case False
    with range have "(u + 129) mod 256 = u + 129" by simp
    with range False show ?thesis by auto
  qed
  then show ?thesis
    unfolding WIFSIGNALED_def WTERMSIG_def signed_char_low7 u_def .
qed

lemma m7: "(0x7f :: 32 word) = mask 7" by (simp add: mask_eq_exp_minus_1)
lemma m8: "(0xff00 :: 32 word) = push_bit 8 (mask 8)" by (simp add: mask_eq_exp_minus_1)

lemma bit_128: "bit (128 :: 32 word) n \<longleftrightarrow> n = 7"
proof -
  have "bit (push_bit 7 (1 :: 32 word)) n \<longleftrightarrow> n = 7"
    by (auto simp only: bit_push_bit_iff bit_1_iff possible_bit_word) simp_all
  then show ?thesis by simp
qed

lemma bit_128_int: "bit (128 :: int) n \<longleftrightarrow> n = 7"
proof -
  have "bit (push_bit 7 (1 :: int)) n \<longleftrightarrow> n = 7"
    by (auto simp only: bit_push_bit_iff bit_1_iff) simp_all
  then show ?thesis by simp
qed

lemma bit_small_nat: "K < 2 ^ m \<Longrightarrow> bit K n \<Longrightarrow> n < m" for K :: nat
proof -
  assume "K < 2 ^ m" "bit K n"
  then have "bit (take_bit m K) n" by (simp add: take_bit_nat_eq_self)
  then show "n < m" by (simp add: bit_take_bit_iff)
qed

lemma bit_below_256: "K < 256 \<Longrightarrow> bit K n \<Longrightarrow> n < 8" for K :: nat
  using bit_small_nat [of K 8 n] by simp

lemma bit_below_128: "K < 128 \<Longrightarrow> bit K n \<Longrightarrow> n < 7" for K :: nat
  using bit_small_nat [of K 7 n] by simp

lemma WTERMSIG_exited: "WTERMSIG (status_exited K) = 0"
  unfolding WTERMSIG_def status_exited_def W_EXITCODE_def m7
  by (rule bit_word_eqI) (auto simp: bit_simps)

lemma WEXITSTATUS_exited: "K < 256 \<Longrightarrow> WEXITSTATUS (status_exited K) = of_nat K"
  unfolding WEXITSTATUS_def status_exited_def W_EXITCODE_def m8
  by (rule bit_word_eqI) (auto simp: bit_simps dest: bit_below_256)

lemma sint_small: "K < 256 \<Longrightarrow> sint (of_nat K :: 32 word) = int K"
  by (simp add: signed_of_nat signed_take_bit_int_eq_self)

lemma uint_small: "K < 256 \<Longrightarrow> uint (of_nat K :: 32 word) = int K"
  by (simp add: uint_nat unat_of_nat)

lemma WTERMSIG_signaled: "sig < 128 \<Longrightarrow> WTERMSIG (status_signaled sig core) = of_nat sig"
  unfolding WTERMSIG_def status_signaled_def W_EXITCODE_def m7
  by (rule bit_word_eqI) (auto simp: bit_simps bit_128 bit_128_int dest: bit_below_128)

section \<open>Lemmas on the checked resolver and on leading numbers\<close>

lemma parse_arg_checked_eq: "parse_arg_checked p a g = Some (parse_arg p a g)"
proof (cases "take 5 a = ''--id=''")
  case True
  then have "length (take 5 a) = 5" by simp
  then have "5 \<le> length a" by simp
  with True show ?thesis by (simp add: parse_arg_checked_def parse_arg_def ptr_add_def)
next
  case False
  then show ?thesis by (simp add: parse_arg_checked_def parse_arg_def)
qed

lemma parse_loop_checked_eq: "parse_loop_checked p xs g = Some (parse_loop p xs g)"
  by (induction xs arbitrary: g) (simp_all add: parse_arg_checked_eq)

lemma parse_args_checked_eq: "parse_args_checked p argv = Some (parse_args p argv)"
  by (simp add: parse_args_checked_def parse_args_def parse_loop_checked_eq)

lemma digits_value_foldl:
  "\<forall>c\<in>set ds. isdigit_c c \<Longrightarrow> rest = [] \<or> \<not> isdigit_c (hd rest) \<Longrightarrow>
     digits_value acc (ds @ rest) = foldl (\<lambda>v c. 10 * v + digit_of c) acc ds"
proof (induction ds arbitrary: acc)
  case Nil
  then show ?case by (cases rest) auto
next
  case (Cons c cs)
  then show ?case by simp
qed

lemma parse_decimal_number:
  assumes ws: "\<forall>c\<in>set ws. isspace_c c"
    and sg: "sg = [] \<or> sg = ''+'' \<or> sg = ''-''"
    and ds: "ds \<noteq> []" "\<forall>c\<in>set ds. isdigit_c c"
    and rest: "rest = [] \<or> \<not> isdigit_c (hd rest)"
  shows "parse_decimal (ws @ sg @ ds @ rest) = (if sg = ''-'' then - decimal ds else decimal ds)"
proof -
  have num: "digits_value 0 (ds @ rest) = decimal ds"
    using digits_value_foldl [OF ds(2) rest] by (simp add: decimal_def)
  obtain d r where dr: "ds = d # r" using ds(1) by (cases ds) auto
  with ds(2) have "isdigit_c d" by simp
  then have d: "\<not> isspace_c d" "d \<noteq> CHR ''-''" "d \<noteq> CHR ''+''"
    using isdigit_not_space by auto
  have signs: "\<not> isspace_c CHR ''-''" "\<not> isspace_c CHR ''+''"
    by (simp_all add: isspace_c_def)
  have skip: "dropWhile isspace_c (ws @ x) = dropWhile isspace_c x" for x
    using ws by (simp add: dropWhile_append2)
  from sg show ?thesis
  proof (elim disjE)
    assume "sg = []"
    then have "parse_decimal (ws @ sg @ ds @ rest) = digits_value 0 ((d # r) @ rest)"
      using d by (simp add: parse_decimal_def skip dr)
    with \<open>sg = []\<close> num dr show ?thesis by simp
  next
    assume "sg = ''+''"
    then have "parse_decimal (ws @ sg @ ds @ rest) = digits_value 0 (ds @ rest)"
      using signs by (simp add: parse_decimal_def skip)
    with \<open>sg = ''+''\<close> num show ?thesis by simp
  next
    assume "sg = ''-''"
    then have "parse_decimal (ws @ sg @ ds @ rest) = - digits_value 0 (ds @ rest)"
      using signs by (simp add: parse_decimal_def skip)
    with \<open>sg = ''-''\<close> num show ?thesis by simp
  qed
qed

section \<open>Lemmas on the calls of a run\<close>

lemma loop_body_calls:
  assumes "p = Unix \<longrightarrow> fork_result env i \<noteq> 0"
  shows "filter (\<lambda>s. is_spawn (snd s) \<or> is_wait (snd s)) (fst (loop_body p env argv i)) =
           map (Pair i) (spawn_then_wait p env i)"
  using assms
  by (cases p)
    (auto simp: loop_body_def iteration_win32_def iteration_unix_def Let_def spawn_then_wait_def
      is_spawn_simps is_wait_simps split: create_result.splits)

lemma parent_opening_calls:
  "filter (\<lambda>a. is_spawn a \<or> is_wait a) (parent_opening p env) = []"
  by (cases p) (simp_all add: parent_opening_def is_spawn_simps is_wait_simps)

lemma main_calls:
  assumes "is_child (parse_args p argv) = 0" and "stays_parent p env"
  shows "filter (\<lambda>a. is_spawn a \<or> is_wait a) (fst (main p env argv)) =
           spawn_then_wait p env 1 @ spawn_then_wait p env 2"
proof -
  have one: "p = Unix \<longrightarrow> fork_result env 1 \<noteq> 0" and two: "p = Unix \<longrightarrow> fork_result env 2 \<noteq> 0"
    using assms(2) by (auto simp: stays_parent_def)
  have "fst (main p env argv) =
          parent_opening p env @ map snd (fst (loop_body p env argv 1) @ fst (loop_body p env argv 2)) @
          [Printf ''\<newline>[parent] All child processes completed successfully!\<newline>'' [],
           Printf ''[parent] Parent process terminating...\<newline>'' []]"
    using assms(1) by (simp add: main_def run_role_def parent_work_def parent_loop_stays [OF assms(2)])
  moreover have "filter (\<lambda>a. is_spawn a \<or> is_wait a) (map snd xs) =
      map snd (filter (\<lambda>s. is_spawn (snd s) \<or> is_wait (snd s)) xs)" for xs :: "step list"
    by (induction xs) simp_all
  ultimately show ?thesis
    by (simp add: parent_opening_calls loop_body_calls [OF one] loop_body_calls [OF two]
        is_spawn_simps is_wait_simps comp_def)
qed

section \<open>Lemmas on the Windows command line\<close>





lemma show_int_not_Nil: "show_int i \<noteq> []"
  by (simp add: show_int_def show_nat_not_Nil)






lemma spawn_then_wait_failed:
  "spawn_failed p env i \<Longrightarrow> spawn_then_wait p env i = [spawn_call p env i]"
  by (cases p) (auto simp: spawn_failed_def spawn_then_wait_def spawn_call_def split: create_result.splits)

lemma hd_spawn_then_wait: "hd (spawn_then_wait p env i) = spawn_call p env i"
  by (cases p) (auto simp: spawn_then_wait_def spawn_call_def split: create_result.splits)

lemma spawn_then_wait_not_Nil: "spawn_then_wait p env i \<noteq> []"
  by (cases p) (auto simp: spawn_then_wait_def split: create_result.splits)

section \<open>The role resolver: properties\<close>

text \<open>
  Claim C3. When no argument after the program name is exactly \<^verbatim>\<open>--child\<close> (in particular
  when there is no argument at all), \<^verbatim>\<open>is_child\<close> stays 0 and \<^verbatim>\<open>main\<close> runs the parent
  branch, whatever \<^verbatim>\<open>--id=\<close> arguments are present.
\<close>

theorem no_child_flag_is_parent:
  assumes "''--child'' \<notin> set (drop 1 argv)"
  shows "is_child (parse_args p argv) = 0 \<and> main p env argv = parent_work p env argv"
  using assms
  by (simp add: main_def run_role_def parse_args_def is_child_parse_loop initial_globals_def)

theorem no_child_flag_is_parent_witness:
  "''--child'' \<notin> set (drop 1 ([] :: string list)) \<and>
   is_child (parse_args Unix []) = 0 \<and> main Unix demo_env [] = parent_work Unix demo_env [] \<and>
   ''--child'' \<notin> set (drop 1 [''proc_demo'', ''--id=7'']) \<and>
   is_child (parse_args Win32 [''proc_demo'', ''--id=7'']) = 0 \<and>
   main Win32 demo_env [''proc_demo'', ''--id=7''] = parent_work Win32 demo_env [''proc_demo'', ''--id=7'']"
  using no_child_flag_is_parent [of "[]" Unix demo_env]
    no_child_flag_is_parent [of "[''proc_demo'', ''--id=7'']" Win32 demo_env]
  by simp

text \<open>
  Claim C7. When \<^verbatim>\<open>--child\<close> is among the arguments and no argument starts with
  \<^verbatim>\<open>--id=\<close>, the index keeps its initial value 0; nothing is checked: \<^verbatim>\<open>main\<close> runs the
  child worker with index 0, and the process ends with exit code 0.
\<close>

theorem child_without_id_has_index_zero:
  assumes "''--child'' \<in> set (drop 1 argv)" and "\<forall>a\<in>set (drop 1 argv). take 5 a \<noteq> ''--id=''"
  shows "parse_args p argv = \<lparr>is_child = 1, child_idx = 0\<rparr> \<and>
         main p env argv = child_work p env \<lparr>is_child = 1, child_idx = 0\<rparr> \<and>
         exit_code p (snd (main p env argv)) = Some 0"
proof -
  have "is_child (parse_args p argv) = 1" "child_idx (parse_args p argv) = 0"
    using assms
    by (simp_all add: parse_args_def is_child_parse_loop child_idx_parse_loop_no_id initial_globals_def)
  then have g: "parse_args p argv = \<lparr>is_child = 1, child_idx = 0\<rparr>"
    by (cases "parse_args p argv") simp
  then show ?thesis
    by (cases p) (simp_all add: main_def run_role_def child_work_def)
qed

theorem child_without_id_has_index_zero_witness:
  "''--child'' \<in> set (drop 1 [''proc_demo'', ''--verbose'', ''--child'']) \<and>
   parse_args Unix [''proc_demo'', ''--verbose'', ''--child''] = \<lparr>is_child = 1, child_idx = 0\<rparr> \<and>
   snd (main Unix demo_env [''proc_demo'', ''--verbose'', ''--child'']) = Exit_call 0 \<and>
   exit_code Unix (snd (main Unix demo_env [''proc_demo'', ''--verbose'', ''--child''])) = Some 0"
  using child_without_id_has_index_zero [of "[''proc_demo'', ''--verbose'', ''--child'']" Unix demo_env]
  by (simp add: child_work_def)

text \<open>
  Claim C2 (as amended). The resolver never crashes: the run with the pointer
  \<^verbatim>\<open>argv[i] + 5\<close> checked never leaves an argument and gives the result of \<^verbatim>\<open>parse_args\<close>,
  for every argument list. When the text of the last \<^verbatim>\<open>--id=\<close> argument does not start a
  number (after white space and one optional sign no digit follows), the index is 0. When
  it consists of white space, an optional sign, a non-empty run of digits whose signed
  value fits an \<^verbatim>\<open>int\<close>, and any text that does not continue the digits, the index is that
  value and not 0. (Nothing is said of a number that does not fit an \<^verbatim>\<open>int\<close>.)
\<close>

theorem non_numeric_id_yields_zero:
  assumes "\<forall>a\<in>set post. take 5 a \<noteq> ''--id=''"
  shows "parse_args_checked p argv = Some (parse_args p argv) \<and>
         (\<not> starts_number idtext \<longrightarrow>
            child_idx (parse_args p (prog # pre @ [''--id='' @ idtext] @ post)) = 0) \<and>
         (\<forall>ws sg ds rest.
            idtext = ws @ sg @ ds @ rest \<and> (\<forall>c\<in>set ws. isspace_c c) \<and>
            (sg = [] \<or> sg = ''+'' \<or> sg = ''-'') \<and> ds \<noteq> [] \<and> (\<forall>c\<in>set ds. isdigit_c c) \<and>
            (rest = [] \<or> \<not> isdigit_c (hd rest)) \<and>
            INT_MIN \<le> (if sg = ''-'' then - decimal ds else decimal ds) \<and>
            (if sg = ''-'' then - decimal ds else decimal ds) \<le> INT_MAX \<longrightarrow>
            child_idx (parse_args p (prog # pre @ [''--id='' @ idtext] @ post)) =
              (if sg = ''-'' then - decimal ds else decimal ds))"
proof -
  have idx: "child_idx (parse_args p (prog # pre @ [''--id='' @ idtext] @ post)) = atoi p idtext"
    unfolding parse_args_Cons using parse_loop_last_id [OF assms] by simp
  have zero: "atoi p idtext = 0" if "\<not> starts_number idtext"
    using that by (intro atoi_zero parse_decimal_not_number)
  have number: "atoi p idtext = (if sg = ''-'' then - decimal ds else decimal ds)"
    if "idtext = ws @ sg @ ds @ rest" "\<forall>c\<in>set ws. isspace_c c"
      "sg = [] \<or> sg = ''+'' \<or> sg = ''-''" "ds \<noteq> []" "\<forall>c\<in>set ds. isdigit_c c"
      "rest = [] \<or> \<not> isdigit_c (hd rest)"
      "INT_MIN \<le> (if sg = ''-'' then - decimal ds else decimal ds)"
      "(if sg = ''-'' then - decimal ds else decimal ds) \<le> INT_MAX"
    for ws sg ds rest
  proof -
    have "parse_decimal idtext = (if sg = ''-'' then - decimal ds else decimal ds)"
      unfolding that(1) using that(2-6) by (rule parse_decimal_number)
    with that(7,8) show ?thesis by (simp only: atoi_in_range)
  qed
  from zero number show ?thesis
    unfolding idx by (simp only: parse_args_checked_eq) blast
qed

theorem non_numeric_id_yields_zero_witness:
  "\<not> starts_number ''abc'' \<and> take 5 ''--verbose'' \<noteq> ''--id='' \<and>
   parse_args_checked Unix [''proc_demo'', ''--child'', ''--id=abc'', ''--verbose''] =
     Some \<lparr>is_child = 1, child_idx = 0\<rparr> \<and>
   child_idx (parse_args Unix [''proc_demo'', ''--child'', ''--id=abc'', ''--verbose'']) = 0 \<and>
   decimal ''007'' = 7 \<and>
   child_idx (parse_args Win32 [''proc_demo'', ''--child'', ''--id= +007abc'', ''--verbose'']) = 7"
proof -
  have no: "\<not> starts_number ''abc''"
    by (simp add: starts_number_def isspace_c_def isdigit_c_def)
  have seven: "decimal ''007'' = 7"
    by (simp add: decimal_def digit_of_def)
  have parts: "'' +007abc'' = '' '' @ ''+'' @ ''007'' @ ''abc''" "\<forall>c\<in>set '' ''. isspace_c c"
    "\<forall>c\<in>set ''007''. isdigit_c c" "\<not> isdigit_c (hd ''abc'')"
    by (simp_all add: isspace_c_def isdigit_c_def)
  have zero: "parse_args_checked Unix [''proc_demo'', ''--child'', ''--id=abc'', ''--verbose''] =
     Some (parse_args Unix [''proc_demo'', ''--child'', ''--id=abc'', ''--verbose''])"
    "child_idx (parse_args Unix [''proc_demo'', ''--child'', ''--id=abc'', ''--verbose'']) = 0"
    using non_numeric_id_yields_zero [of "[''--verbose'']" Unix
        "[''proc_demo'', ''--child'', ''--id=abc'', ''--verbose'']" "''abc''" "''proc_demo''" "[''--child'']"] no
    by simp_all
  have "is_child (parse_args Unix [''proc_demo'', ''--child'', ''--id=abc'', ''--verbose'']) = 1"
    by (simp add: parse_args_def parse_arg_def initial_globals_def)
  with zero have checked: "parse_args_checked Unix [''proc_demo'', ''--child'', ''--id=abc'', ''--verbose''] =
     Some \<lparr>is_child = 1, child_idx = 0\<rparr>"
    by (cases "parse_args Unix [''proc_demo'', ''--child'', ''--id=abc'', ''--verbose'']") simp
  have post: "\<forall>a\<in>set [''--verbose'']. take 5 a \<noteq> ''--id=''" by simp
  note number = non_numeric_id_yields_zero [OF post, THEN conjunct2, THEN conjunct2, rule_format,
      where idtext = "'' +007abc''" and ws = "'' ''" and sg = "''+''" and ds = "''007''" and rest = "''abc''"
        and p = Win32 and prog = "''proc_demo''" and pre = "[''--child'']"]
  have "child_idx (parse_args Win32 (''proc_demo'' # [''--child''] @ [''--id='' @ '' +007abc''] @ [''--verbose''])) =
          (if ''+'' = ''-'' then - decimal ''007'' else decimal ''007'')"
    by (rule number) (simp add: isspace_c_def isdigit_c_def seven INT_MIN_def INT_MAX_def)
  then have "child_idx (parse_args Win32 [''proc_demo'', ''--child'', ''--id= +007abc'', ''--verbose'']) = 7"
    by (simp add: seven)
  with no zero(2) checked seven show ?thesis by simp
qed

text \<open>
  The claim as stated fails when the malformed text starts with digits: \<^verbatim>\<open>12abc\<close> is not a
  number, and the index is 12.
\<close>

theorem id_12abc_yields_12:
  "child_idx (parse_args Unix [''proc_demo'', ''--child'', ''--id=12abc'']) = 12 \<and>
   child_idx (parse_args Win32 [''proc_demo'', ''--child'', ''--id=12abc'']) = 12"
  by code_simp

text \<open>
  Claim C9 (as amended). The index matters only in the child role: when \<^verbatim>\<open>is_child\<close> is 0,
  \<^verbatim>\<open>main\<close> does the same whatever value \<^verbatim>\<open>child_idx\<close> holds, and when it is not 0 the
  process ends in the exit call with \<^verbatim>\<open>child_idx\<close>. The stored index is the initial 0
  whenever no argument starts with \<^verbatim>\<open>--id=\<close>; an \<^verbatim>\<open>--id=\<close> argument is stored in the
  parent role too.
\<close>

theorem index_matters_only_in_child_role:
  "(is_child (parse_args p argv) = 0 \<longrightarrow>
      (\<forall>v. run_role p env argv ((parse_args p argv)\<lparr>child_idx := v\<rparr>) = main p env argv)) \<and>
   (is_child g \<noteq> 0 \<longrightarrow>
      snd (run_role p env argv g) =
        (case p of Win32 \<Rightarrow> ExitProcess_call (nat (child_idx g mod 4294967296))
                 | Unix \<Rightarrow> Exit_call (child_idx g))) \<and>
   ((\<forall>a\<in>set (drop 1 argv). take 5 a \<noteq> ''--id='') \<longrightarrow> child_idx (parse_args p argv) = 0)"
proof -
  have "child_idx (parse_args p argv) = 0" if "\<forall>a\<in>set (drop 1 argv). take 5 a \<noteq> ''--id=''"
    using that by (simp add: parse_args_def child_idx_parse_loop_no_id initial_globals_def)
  moreover have "is_child g \<noteq> 0 \<longrightarrow>
      snd (run_role p env argv g) =
        (case p of Win32 \<Rightarrow> ExitProcess_call (nat (child_idx g mod 4294967296))
                 | Unix \<Rightarrow> Exit_call (child_idx g))"
    by (cases p) (simp_all add: run_role_def child_work_def)
  ultimately show ?thesis by (simp add: main_def run_role_def)
qed

theorem index_matters_only_in_child_role_witness:
  "is_child (parse_args Unix [''proc_demo'', ''--id=5'']) = 0 \<and>
   run_role Unix demo_env [''proc_demo'', ''--id=5''] ((parse_args Unix [''proc_demo'', ''--id=5''])\<lparr>child_idx := 0\<rparr>) =
     main Unix demo_env [''proc_demo'', ''--id=5''] \<and>
   is_child \<lparr>is_child = 1, child_idx = 2\<rparr> \<noteq> 0 \<and>
   snd (run_role Unix demo_env [] \<lparr>is_child = 1, child_idx = 2\<rparr>) = Exit_call 2 \<and>
   child_idx (parse_args Unix [''proc_demo'', ''--child'']) = 0"
proof -
  have parent: "is_child (parse_args Unix [''proc_demo'', ''--id=5'']) = 0"
    by (simp add: parse_args_def parse_arg_def initial_globals_def)
  from index_matters_only_in_child_role [of Unix "[''proc_demo'', ''--id=5'']" demo_env "\<lparr>is_child = 1, child_idx = 2\<rparr>"]
    index_matters_only_in_child_role [of Unix "[''proc_demo'', ''--child'']" demo_env "\<lparr>is_child = 1, child_idx = 2\<rparr>"]
    index_matters_only_in_child_role [of Unix "[]" demo_env "\<lparr>is_child = 1, child_idx = 2\<rparr>"]
    parent
  show ?thesis by simp
qed

text \<open>
  The claim as stated fails for an \<^verbatim>\<open>--id=\<close> argument without \<^verbatim>\<open>--child\<close>: the role is
  the parent's and the stored index is 5, not the sentinel 0.
\<close>

theorem parent_role_keeps_index:
  "is_child (parse_args Unix [''proc_demo'', ''--id=5'']) = 0 \<and>
   child_idx (parse_args Unix [''proc_demo'', ''--id=5'']) = 5"
  by code_simp




section \<open>The child worker: properties\<close>

text \<open>
  Claim C1 (as amended). For every index \<open>N\<close> from 0 to \<^verbatim>\<open>INT_MAX\<close>, a child invocation in
  which \<^verbatim>\<open>--child\<close> occurs after the program name and whose last \<^verbatim>\<open>--id=\<close> argument is
  \<^verbatim>\<open>--id=N\<close> ends in the abrupt exit call of \<^verbatim>\<open>child_work\<close> with exactly \<open>N\<close>:
  \<^verbatim>\<open>_exit (N)\<close> on Unix, \<^verbatim>\<open>ExitProcess (N)\<close> on Windows. The exit code of the process is
  \<open>N\<close> on Windows and \<open>N mod 256\<close> on Unix, hence exactly \<open>N\<close> on Unix when \<open>N \<le> 255\<close>.
\<close>

theorem child_exits_with_index:
  assumes "0 \<le> N" and "N \<le> INT_MAX"
    and "''--child'' \<in> set (pre @ post)" and "\<forall>a\<in>set post. take 5 a \<noteq> ''--id=''"
  shows "snd (main p env (a0 # pre @ [''--id='' @ show_int N] @ post)) =
           (case p of Win32 \<Rightarrow> ExitProcess_call (nat N) | Unix \<Rightarrow> Exit_call N) \<and>
         exit_code p (snd (main p env (a0 # pre @ [''--id='' @ show_int N] @ post))) =
           Some (case p of Win32 \<Rightarrow> N | Unix \<Rightarrow> N mod 256) \<and>
         (p = Win32 \<or> N \<le> 255 \<longrightarrow>
            exit_code p (snd (main p env (a0 # pre @ [''--id='' @ show_int N] @ post))) = Some N)"
proof -
  define argv where "argv = a0 # pre @ [''--id='' @ show_int N] @ post"
  have "atoi p (show_int N) = N"
    using assms(1,2) by (intro atoi_show_int) (simp_all add: INT_MIN_def)
  then have idx: "child_idx (parse_args p argv) = N"
    unfolding argv_def parse_args_Cons using parse_loop_last_id [OF assms(4)] by simp
  have "is_child (parse_args p argv) = 1"
    unfolding argv_def parse_args_Cons using assms(3) by (auto simp: is_child_parse_loop)
  with idx have g: "parse_args p argv = \<lparr>is_child = 1, child_idx = N\<rparr>"
    by (cases "parse_args p argv") simp
  have small: "N mod 4294967296 = N" "N \<le> 255 \<Longrightarrow> N mod 256 = N"
    using assms(1,2) by (simp_all add: INT_MAX_def)
  have run: "main p env argv = child_work p env \<lparr>is_child = 1, child_idx = N\<rparr>"
    by (simp add: main_def run_role_def g)
  show ?thesis
    unfolding argv_def [symmetric] run
    using assms(1) by (cases p) (simp_all add: child_work_def small)
qed

theorem child_exits_with_index_witness:
  "(0::int) \<le> 2 \<and> 2 \<le> INT_MAX \<and> ''--child'' \<in> set ([] @ [''--child'']) \<and>
   take 5 ''--child'' \<noteq> ''--id='' \<and> ''--id='' @ show_int 2 = ''--id=2'' \<and>
   snd (main Unix demo_env [''./proc_demo'', ''--id=2'', ''--child'']) = Exit_call 2 \<and>
   exit_code Unix (snd (main Unix demo_env [''./proc_demo'', ''--id=2'', ''--child''])) = Some 2 \<and>
   snd (main Win32 demo_env [''./proc_demo'', ''--id=2'', ''--child'']) = ExitProcess_call 2 \<and>
   exit_code Win32 (snd (main Win32 demo_env [''./proc_demo'', ''--id=2'', ''--child''])) = Some 2"
proof -
  have two: "show_int 2 = ''2''" by code_simp
  from child_exits_with_index [of 2 "[]" "[''--child'']" Unix demo_env "''./proc_demo''"]
    child_exits_with_index [of 2 "[]" "[''--child'']" Win32 demo_env "''./proc_demo''"]
  show ?thesis by (simp add: INT_MAX_def two)
qed

text \<open>
  The claim as stated fails on Unix from index 256 on: the child calls \<^verbatim>\<open>_exit (256)\<close>, and
  the exit code of the process is 0.
\<close>

theorem child_index_256_exit_code_0:
  "snd (main Unix demo_env [''./proc_demo'', ''--child'', ''--id=256'']) = Exit_call 256 \<and>
   exit_code Unix (snd (main Unix demo_env [''./proc_demo'', ''--child'', ''--id=256''])) = Some 0"
  by code_simp

section \<open>The orchestrator: properties\<close>

text \<open>
  Claim C4. In the parent role, followed as the orchestrator itself, the spawn and wait
  calls of the whole run are, in this order: the spawn call for index 1, then (unless that
  spawn was refused) the blocking wait for exactly the process it created, then the spawn
  call for index 2, then (unless refused) the blocking wait for that process. So there are
  exactly two spawn attempts, for index 1 and then for index 2, and the wait for child 1
  has returned before the spawn attempt for child 2 begins. Every call of iteration 1 comes
  before every call of iteration 2 (the labels of the loop's trace are sorted): no steps
  of the two children interleave.
\<close>

theorem orchestration_is_sequential:
  assumes "is_child (parse_args p argv) = 0" and "stays_parent p env"
  shows "\<exists>tr. parent_loop p env argv = (tr, None) \<and>
           fst (main p env argv) =
             parent_opening p env @ map snd tr @
             [Printf ''\<newline>[parent] All child processes completed successfully!\<newline>'' [],
              Printf ''[parent] Parent process terminating...\<newline>'' []] \<and>
           filter (\<lambda>a. is_spawn a \<or> is_wait a) (fst (main p env argv)) =
             spawn_then_wait p env 1 @ spawn_then_wait p env 2 \<and>
           filter (\<lambda>s. is_spawn (snd s) \<or> is_wait (snd s)) tr =
             map (Pair 1) (spawn_then_wait p env 1) @ map (Pair 2) (spawn_then_wait p env 2) \<and>
           filter is_spawn (fst (main p env argv)) = [spawn_call p env 1, spawn_call p env 2] \<and>
           filter (is_spawn \<circ> snd) tr = [(1, spawn_call p env 1), (2, spawn_call p env 2)] \<and>
           sorted (map fst tr) \<and>
           (\<forall>j k. j < length tr \<and> k < length tr \<and>
                  fst (tr ! j) = 1 \<and> is_wait (snd (tr ! j)) \<and>
                  fst (tr ! k) = 2 \<and> is_spawn (snd (tr ! k)) \<longrightarrow> j < k)"
proof -
  define tr where "tr = fst (loop_body p env argv 1) @ fst (loop_body p env argv 2)"
  have one: "p = Unix \<longrightarrow> fork_result env 1 \<noteq> 0" and two: "p = Unix \<longrightarrow> fork_result env 2 \<noteq> 0"
    using assms(2) by (auto simp: stays_parent_def)
  have loop: "parent_loop p env argv = (tr, None)"
    unfolding tr_def by (rule parent_loop_stays [OF assms(2)])
  have spawns: "filter (is_spawn \<circ> snd) tr = [(1, spawn_call p env 1), (2, spawn_call p env 2)]"
    by (simp add: tr_def loop_body_spawns)
  have trace: "fst (main p env argv) =
             parent_opening p env @ map snd tr @
             [Printf ''\<newline>[parent] All child processes completed successfully!\<newline>'' [],
              Printf ''[parent] Parent process terminating...\<newline>'' []]"
    using assms(1) by (simp add: main_def run_role_def parent_work_def loop)
  have calls: "filter (\<lambda>a. is_spawn a \<or> is_wait a) (fst (main p env argv)) =
             spawn_then_wait p env 1 @ spawn_then_wait p env 2"
    by (rule main_calls [OF assms])
  have labelled: "filter (\<lambda>s. is_spawn (snd s) \<or> is_wait (snd s)) tr =
             map (Pair 1) (spawn_then_wait p env 1) @ map (Pair 2) (spawn_then_wait p env 2)"
    by (simp add: tr_def loop_body_calls [OF one] loop_body_calls [OF two])
  have all: "filter is_spawn (fst (main p env argv)) = [spawn_call p env 1, spawn_call p env 2]"
    by (simp add: trace is_spawn_not_closing filter_map_snd spawns is_spawn_simps)
  have sorted: "sorted (map fst tr)"
    unfolding tr_def by (rule sorted_labels) (simp_all add: loop_body_labels)
  have "j < k" if "j < length tr" "k < length tr" "fst (tr ! j) = 1" "fst (tr ! k) = 2" for j k
    using sorted_labels_order [OF sorted that(1,2)] that(3,4) by simp
  then have order: "\<forall>j k. j < length tr \<and> k < length tr \<and>
                  fst (tr ! j) = 1 \<and> is_wait (snd (tr ! j)) \<and>
                  fst (tr ! k) = 2 \<and> is_spawn (snd (tr ! k)) \<longrightarrow> j < k"
    by blast
  show ?thesis
    by (intro exI [of _ tr] conjI loop trace calls labelled all spawns sorted order)
qed

theorem orchestration_is_sequential_witness:
  "is_child (parse_args Unix [''./proc_demo'']) = 0 \<and> stays_parent Unix demo_env \<and>
   filter (\<lambda>a. is_spawn a \<or> is_wait a) (fst (main Unix demo_env [''./proc_demo''])) =
     [Fork 101, Waitpid 101 0, Fork 102, Waitpid 102 0] \<and>
   filter is_spawn (fst (main Unix demo_env [''./proc_demo''])) = [Fork 101, Fork 102] \<and>
   sorted (map fst (fst (parent_loop Unix demo_env [''./proc_demo''])))"
proof -
  have parent: "is_child (parse_args Unix [''./proc_demo'']) = 0"
    by (simp add: parse_args_def initial_globals_def)
  have stays: "stays_parent Unix demo_env"
    by (simp add: stays_parent_def demo_env_def)
  have calls: "spawn_call Unix demo_env 1 = Fork 101" "spawn_call Unix demo_env 2 = Fork 102"
    "spawn_then_wait Unix demo_env 1 = [Fork 101, Waitpid 101 0]"
    "spawn_then_wait Unix demo_env 2 = [Fork 102, Waitpid 102 0]"
    by (simp_all add: spawn_call_def spawn_then_wait_def demo_env_def)
  from orchestration_is_sequential [OF parent stays] obtain tr where
    "parent_loop Unix demo_env [''./proc_demo''] = (tr, None)"
    "filter (\<lambda>a. is_spawn a \<or> is_wait a) (fst (main Unix demo_env [''./proc_demo''])) =
       spawn_then_wait Unix demo_env 1 @ spawn_then_wait Unix demo_env 2"
    "filter is_spawn (fst (main Unix demo_env [''./proc_demo''])) =
       [spawn_call Unix demo_env 1, spawn_call Unix demo_env 2]"
    "sorted (map fst tr)"
    by blast
  with parent stays calls show ?thesis by simp
qed

text \<open>
  Claim C5. In the parent role, followed as the orchestrator itself, the run ends with the
  closing line, \<^verbatim>\<open>main\<close> returns 0 and the exit code of the process is 0, whatever the spawn
  and wait calls answer. When the spawn of child 1 is refused, the spawn and wait calls of
  the whole run are that one attempt for child 1, with no wait for it, and then the spawn
  call for child 2 with its wait: the orchestrator does not abort and still attempts child
  2. When the spawn of child 2 is refused, the run still ends in the same way.
\<close>

theorem spawn_failure_is_isolated:
  assumes "is_child (parse_args p argv) = 0" and "stays_parent p env"
  shows "snd (main p env argv) = Main_return 0 \<and>
         exit_code p (snd (main p env argv)) = Some 0 \<and>
         last (fst (main p env argv)) = Printf ''[parent] Parent process terminating...\<newline>'' [] \<and>
         (spawn_failed p env 1 \<longrightarrow>
            filter (\<lambda>a. is_spawn a \<or> is_wait a) (fst (main p env argv)) =
              spawn_call p env 1 # spawn_then_wait p env 2 \<and>
            hd (spawn_then_wait p env 2) = spawn_call p env 2 \<and>
            spawn_call p env 2 \<in> set (fst (main p env argv))) \<and>
         (spawn_failed p env 2 \<longrightarrow>
            filter (\<lambda>a. is_spawn a \<or> is_wait a) (fst (main p env argv)) =
              spawn_then_wait p env 1 @ [spawn_call p env 2])"
proof -
  have loop: "parent_loop p env argv = (fst (loop_body p env argv 1) @ fst (loop_body p env argv 2), None)"
    by (rule parent_loop_stays [OF assms(2)])
  with assms(1) have out: "snd (main p env argv) = Main_return 0"
    and final: "last (fst (main p env argv)) = Printf ''[parent] Parent process terminating...\<newline>'' []"
    by (simp_all add: main_def run_role_def parent_work_def)
  from out have code: "exit_code p (snd (main p env argv)) = Some 0"
    by (cases p) simp_all
  have calls: "filter (\<lambda>a. is_spawn a \<or> is_wait a) (fst (main p env argv)) =
             spawn_then_wait p env 1 @ spawn_then_wait p env 2"
    by (rule main_calls [OF assms])
  have second: "spawn_call p env 2 \<in> set (fst (main p env argv))"
  proof -
    have "spawn_call p env 2 \<in> set (spawn_then_wait p env 2)"
      using hd_in_set [OF spawn_then_wait_not_Nil [of p env 2]] by (simp add: hd_spawn_then_wait)
    then have "spawn_call p env 2 \<in> set (filter (\<lambda>a. is_spawn a \<or> is_wait a) (fst (main p env argv)))"
      by (simp add: calls)
    then show ?thesis by simp
  qed
  have first_fails: "filter (\<lambda>a. is_spawn a \<or> is_wait a) (fst (main p env argv)) =
              spawn_call p env 1 # spawn_then_wait p env 2" if "spawn_failed p env 1"
    by (simp add: calls spawn_then_wait_failed [OF that])
  have second_fails: "filter (\<lambda>a. is_spawn a \<or> is_wait a) (fst (main p env argv)) =
              spawn_then_wait p env 1 @ [spawn_call p env 2]" if "spawn_failed p env 2"
    by (simp add: calls spawn_then_wait_failed [OF that])
  show ?thesis
    by (intro conjI impI out code final first_fails second_fails second hd_spawn_then_wait)
qed

theorem spawn_failure_is_isolated_witness:
  "is_child (parse_args Unix [''./proc_demo'']) = 0 \<and> stays_parent Unix demo_env_spawn1_fails \<and>
   spawn_failed Unix demo_env_spawn1_fails 1 \<and>
   snd (main Unix demo_env_spawn1_fails [''./proc_demo'']) = Main_return 0 \<and>
   exit_code Unix (snd (main Unix demo_env_spawn1_fails [''./proc_demo''])) = Some 0 \<and>
   filter (\<lambda>a. is_spawn a \<or> is_wait a) (fst (main Unix demo_env_spawn1_fails [''./proc_demo''])) =
     [Fork (- 1), Fork 102, Waitpid 102 0] \<and>
   is_child (parse_args Win32 [''proc_demo.exe'']) = 0 \<and> stays_parent Win32 demo_env_spawn1_fails \<and>
   spawn_failed Win32 demo_env_spawn1_fails 1 \<and>
   snd (main Win32 demo_env_spawn1_fails [''proc_demo.exe'']) = Main_return 0 \<and>
   filter (\<lambda>a. is_spawn a \<or> is_wait a) (fst (main Win32 demo_env_spawn1_fails [''proc_demo.exe''])) =
     [CreateProcessA (command_line ''proc_demo.exe'' 1), CreateProcessA (command_line ''proc_demo.exe'' 2),
      WaitForSingleObject 4 INFINITE]"
proof -
  have parent: "is_child (parse_args Unix [''./proc_demo'']) = 0"
    "is_child (parse_args Win32 [''proc_demo.exe'']) = 0"
    by (simp_all add: parse_args_def initial_globals_def)
  have stays: "stays_parent Unix demo_env_spawn1_fails" "stays_parent Win32 demo_env_spawn1_fails"
    by (simp_all add: stays_parent_def demo_env_spawn1_fails_def demo_env_def)
  have failed: "spawn_failed Unix demo_env_spawn1_fails 1" "spawn_failed Win32 demo_env_spawn1_fails 1"
    by (simp_all add: spawn_failed_def demo_env_spawn1_fails_def demo_env_def)
  have calls: "spawn_call Unix demo_env_spawn1_fails 1 = Fork (- 1)"
    "spawn_then_wait Unix demo_env_spawn1_fails 2 = [Fork 102, Waitpid 102 0]"
    "spawn_call Win32 demo_env_spawn1_fails 1 = CreateProcessA (command_line ''proc_demo.exe'' 1)"
    "spawn_then_wait Win32 demo_env_spawn1_fails 2 =
       [CreateProcessA (command_line ''proc_demo.exe'' 2), WaitForSingleObject 4 INFINITE]"
    by (simp_all add: spawn_call_def spawn_then_wait_def demo_env_spawn1_fails_def demo_env_def)
  note unix = spawn_failure_is_isolated [OF parent(1) stays(1)]
  note win = spawn_failure_is_isolated [OF parent(2) stays(2)]
  have u: "snd (main Unix demo_env_spawn1_fails [''./proc_demo'']) = Main_return 0"
    "exit_code Unix (snd (main Unix demo_env_spawn1_fails [''./proc_demo''])) = Some 0"
    "filter (\<lambda>a. is_spawn a \<or> is_wait a) (fst (main Unix demo_env_spawn1_fails [''./proc_demo''])) =
       spawn_call Unix demo_env_spawn1_fails 1 # spawn_then_wait Unix demo_env_spawn1_fails 2"
    using unix failed(1) by blast+
  have w: "snd (main Win32 demo_env_spawn1_fails [''proc_demo.exe'']) = Main_return 0"
    "filter (\<lambda>a. is_spawn a \<or> is_wait a) (fst (main Win32 demo_env_spawn1_fails [''proc_demo.exe''])) =
       spawn_call Win32 demo_env_spawn1_fails 1 # spawn_then_wait Win32 demo_env_spawn1_fails 2"
    using win failed(2) by blast+
  show ?thesis
    by (intro conjI parent stays failed u(1,2) w(1) u(3) [unfolded calls] w(2) [unfolded calls])
qed

text \<open>
  Claim C8 (as amended). An exec failure is a call of \<^verbatim>\<open>execvp\<close> on the program name
  \<^verbatim>\<open>argv[0]\<close> that returns (so \<^verbatim>\<open>argc\<close> is at least 1: on the null pointer the call has no
  defined behaviour, and nothing is said of it). When \<^verbatim>\<open>execvp\<close> fails in the child path of
  iteration 1 or 2, the process ends at once: \<^verbatim>\<open>perror\<close> is its last call and it leaves
  through \<^verbatim>\<open>_exit (127)\<close>, so its exit code is 127, which is not 0. Every child image that a
  run of the orchestrator starts exits with code 1 or 2, so 127 differs from the exit code
  of every child that the orchestrator launches.
\<close>

theorem exec_failure_exits_127:
  assumes "is_child (parse_args Unix argv) = 0"
    and "i = 1 \<or> i = 2" and "i = 2 \<longrightarrow> fork_result env 1 \<noteq> 0"
    and "fork_result env i = 0" and "exec_fails env argv i"
  shows "snd (main Unix env argv) = Exit_call 127 \<and>
         last (fst (main Unix env argv)) = Perror ''[child] execvp failed'' \<and>
         exit_code Unix (snd (main Unix env argv)) = Some 127 \<and>
         (\<forall>env2 argv2 f args env3.
            is_child (parse_args Unix argv2) = 0 \<and> snd (main Unix env2 argv2) = Image_replaced f args \<longrightarrow>
            exit_code Unix (snd (main Unix env3 args)) = Some 1 \<or>
            exit_code Unix (snd (main Unix env3 args)) = Some 2)"
proof -
  obtain tr where "parent_loop Unix env argv = (tr @ [(i, Perror ''[child] execvp failed'')], Some (Exit_call 127))"
    using exec_failure_ends_loop [OF assms(2-5)] by blast
  with assms(1) have here: "snd (main Unix env argv) = Exit_call 127"
    "last (fst (main Unix env argv)) = Perror ''[child] execvp failed''"
    by (simp_all add: main_def run_role_def parent_work_def)
  have children: "exit_code Unix (snd (main Unix env3 args)) = Some 1 \<or>
            exit_code Unix (snd (main Unix env3 args)) = Some 2"
    if "is_child (parse_args Unix argv2) = 0" "snd (main Unix env2 argv2) = Image_replaced f args"
    for env2 argv2 f args env3
  proof -
    from that have "snd (parent_work Unix env2 argv2) = Image_replaced f args"
      by (simp add: main_def run_role_def)
    then have "args = child_argv f 1 \<or> args = child_argv f 2"
      by (rule parent_work_unix_ends)
    then show ?thesis
      by (auto simp: main_def run_role_def parse_args_child_argv child_exit_unix)
  qed
  from here children show ?thesis by simp blast
qed

theorem exec_failure_exits_127_witness:
  "is_child (parse_args Unix [''./proc_demo'']) = 0 \<and> fork_result demo_env_exec_fails 1 = 0 \<and>
   exec_fails demo_env_exec_fails [''./proc_demo''] 1 \<and>
   snd (main Unix demo_env_exec_fails [''./proc_demo'']) = Exit_call 127 \<and>
   last (fst (main Unix demo_env_exec_fails [''./proc_demo''])) = Perror ''[child] execvp failed'' \<and>
   exit_code Unix (snd (main Unix demo_env_exec_fails [''./proc_demo''])) = Some 127 \<and>
   snd (main Unix demo_env_forked [''./proc_demo'']) =
     Image_replaced ''./proc_demo'' [''./proc_demo'', ''--child'', ''--id=1''] \<and>
   (exit_code Unix (snd (main Unix demo_env [''./proc_demo'', ''--child'', ''--id=1''])) = Some 1 \<or>
    exit_code Unix (snd (main Unix demo_env [''./proc_demo'', ''--child'', ''--id=1''])) = Some 2)"
proof -
  have parent: "is_child (parse_args Unix [''./proc_demo'']) = 0"
    by (simp add: parse_args_def initial_globals_def)
  have forked: "fork_result demo_env_exec_fails 1 = 0"
    by (simp add: demo_env_exec_fails_def)
  have fails: "exec_fails demo_env_exec_fails [''./proc_demo''] 1"
    by (simp add: exec_fails_def argv0_def demo_env_exec_fails_def)
  have image: "snd (main Unix demo_env_forked [''./proc_demo'']) =
     Image_replaced ''./proc_demo'' [''./proc_demo'', ''--child'', ''--id=1'']"
    by code_simp
  have first: "(1::int) = 1 \<or> (1::int) = 2" "(1::int) = 2 \<longrightarrow> fork_result demo_env_exec_fails 1 \<noteq> 0"
    by simp_all
  note inst = exec_failure_exits_127 [OF parent first forked fails]
  have here: "snd (main Unix demo_env_exec_fails [''./proc_demo'']) = Exit_call 127"
    "last (fst (main Unix demo_env_exec_fails [''./proc_demo''])) = Perror ''[child] execvp failed''"
    "exit_code Unix (snd (main Unix demo_env_exec_fails [''./proc_demo''])) = Some 127"
    using inst by simp_all
  have "exit_code Unix (snd (main Unix demo_env [''./proc_demo'', ''--child'', ''--id=1''])) = Some 1 \<or>
    exit_code Unix (snd (main Unix demo_env [''./proc_demo'', ''--child'', ''--id=1''])) = Some 2"
    using inst parent image by blast
  with parent forked fails here image show ?thesis by simp
qed

text \<open>
  The claim as stated fails for a child index of 127: such a child ends through the same
  \<^verbatim>\<open>_exit (127)\<close> as a child whose \<^verbatim>\<open>execvp\<close> failed.
\<close>

theorem child_index_127_collides:
  "snd (main Unix demo_env [''./proc_demo'', ''--child'', ''--id=127'']) = Exit_call 127 \<and>
   snd (main Unix demo_env_exec_fails [''./proc_demo'']) = Exit_call 127 \<and>
   exit_code Unix (snd (main Unix demo_env [''./proc_demo'', ''--child'', ''--id=127''])) =
     exit_code Unix (snd (main Unix demo_env_exec_fails [''./proc_demo'']))"
  by code_simp

section \<open>The wait status: properties\<close>

text \<open>
  Claim C6. The status of a process that exited normally with code \<open>K\<close> (an exit code is
  one byte, \<open>K < 256\<close>) is reported as a normal exit with code \<open>K\<close>; the status of a
  process killed by signal \<open>sig\<close> (from 1 to 126, with or without a core dump) is reported
  as killed by signal \<open>sig\<close>. No status satisfies both \<^verbatim>\<open>WIFEXITED\<close> and \<^verbatim>\<open>WIFSIGNALED\<close>,
  the two kinds of status are never equal, and a status that is neither is reported by the
  third line together with the raw status word.
\<close>

theorem wait_status_decoding:
  "(K < 256 \<longrightarrow>
      report_status i (status_exited K) =
        Printf ''[parent] Child #%d exited normally with code %d\<newline>'' [D i, D (int K)]) \<and>
   (1 \<le> sig \<and> sig \<le> 126 \<longrightarrow>
      report_status i (status_signaled sig core) =
        Printf ''[parent] Child #%d was killed by signal %d\<newline>'' [D i, D (int sig)]) \<and>
   \<not> (WIFEXITED st \<and> WIFSIGNALED st) \<and>
   (1 \<le> sig \<and> sig \<le> 126 \<longrightarrow> status_exited K \<noteq> status_signaled sig core) \<and>
   (\<not> WIFEXITED st \<and> \<not> WIFSIGNALED st \<longrightarrow>
      report_status i st = Printf ''[parent] Child #%d terminated with status 0x%x\<newline>'' [D i, X st])"
proof -
  have exited: "report_status i (status_exited K) =
        Printf ''[parent] Child #%d exited normally with code %d\<newline>'' [D i, D (int K)]" if "K < 256"
    using that by (simp add: report_status_def WIFEXITED_def WTERMSIG_exited WEXITSTATUS_exited sint_small)
  have excl: "\<not> (WIFEXITED s \<and> WIFSIGNALED s)" for s
    by (auto simp: WIFSIGNALED_iff WIFEXITED_def)
  have sig: "WIFSIGNALED (status_signaled sig core)" if "1 \<le> sig" "sig \<le> 126"
    using that by (simp add: WIFSIGNALED_iff WTERMSIG_signaled uint_small)
  have signaled: "report_status i (status_signaled sig core) =
        Printf ''[parent] Child #%d was killed by signal %d\<newline>'' [D i, D (int sig)]"
    if "1 \<le> sig" "sig \<le> 126"
    using that sig [OF that] excl [of "status_signaled sig core"]
    by (simp add: report_status_def WTERMSIG_signaled sint_small)
  have differ: "status_exited K \<noteq> status_signaled sig core" if "1 \<le> sig" "sig \<le> 126"
  proof
    assume eq: "status_exited K = status_signaled sig core"
    have "WIFEXITED (status_exited K)" by (simp add: WIFEXITED_def WTERMSIG_exited)
    with eq sig [OF that] excl [of "status_signaled sig core"] show False by simp
  qed
  have other: "report_status i st = Printf ''[parent] Child #%d terminated with status 0x%x\<newline>'' [D i, X st]"
    if "\<not> WIFEXITED st" "\<not> WIFSIGNALED st"
    using that by (simp add: report_status_def)
  from exited signaled excl differ other show ?thesis by blast
qed

theorem wait_status_decoding_witness:
  "(2::nat) < 256 \<and> (1::nat) \<le> 9 \<and> (9::nat) \<le> 126 \<and>
   status_exited 2 = 0x200 \<and> status_signaled 9 True = 0x89 \<and>
   report_status 1 0x200 = Printf ''[parent] Child #%d exited normally with code %d\<newline>'' [D 1, D 2] \<and>
   report_status 1 0x89 = Printf ''[parent] Child #%d was killed by signal %d\<newline>'' [D 1, D 9] \<and>
   \<not> WIFEXITED 0x137f \<and> \<not> WIFSIGNALED 0x137f \<and>
   report_status 1 0x137f = Printf ''[parent] Child #%d terminated with status 0x%x\<newline>'' [D 1, X 0x137f]"
proof -
  have raw: "status_exited 2 = 0x200" "status_signaled 9 True = 0x89"
    by (simp_all add: status_exited_def status_signaled_def W_EXITCODE_def)
  have stopped: "\<not> WIFEXITED 0x137f" "\<not> WIFSIGNALED 0x137f"
    by (simp_all add: WIFEXITED_def WTERMSIG_def WIFSIGNALED_def)
  from wait_status_decoding [of 2 1 9 True "0x137f"] raw stopped
  show ?thesis by simp
qed

end
